theory Spec2Isabelle
  imports Main "HOL-Library.Char_ord" "HOL-Library.List_Lexorder"
begin

unbundle bit_operations_syntax

section \<open>Strings\<close>

text \<open>
  A Python \<open>str\<close> is modelled as its UTF-8 byte sequence (\<^typ>\<open>string\<close>). Comparing
  byte sequences lexicographically agrees with Python's comparison by code point, so
  \<open>sorted\<close> on names is \<^const>\<open>sort\<close> on strings. \<open>str.strip()\<close> removes the ASCII
  white space Python recognises and \<open>str.lower()\<close> maps \<open>A..Z\<close> to \<open>a..z\<close>: the lines
  typed are taken to use no white space and no capital letters outside ASCII.
\<close>

definition is_space :: "char \<Rightarrow> bool" where
  "is_space c = (c \<in> set [CHR 0x09, CHR 0x0A, CHR 0x0B, CHR 0x0C, CHR 0x0D,
                           CHR 0x1C, CHR 0x1D, CHR 0x1E, CHR 0x1F, CHR 0x20])"

definition strip :: "string \<Rightarrow> string" where
  "strip s = rev (dropWhile is_space (rev (dropWhile is_space s)))"

definition lower_char :: "char \<Rightarrow> char" where
  "lower_char c =
     (case map_of (zip ''ABCDEFGHIJKLMNOPQRSTUVWXYZ'' ''abcdefghijklmnopqrstuvwxyz'') c of
        None \<Rightarrow> c
      | Some l \<Rightarrow> l)"

definition lower :: "string \<Rightarrow> string" where
  "lower s = map lower_char s"

definition rstrip_slash :: "string \<Rightarrow> string" where
  \<comment> \<open>\<open>s.rstrip("/")\<close>\<close>
  "rstrip_slash s = rev (dropWhile (\<lambda>c. c = CHR ''/'') (rev s))"

definition is_continuation :: "char \<Rightarrow> bool" where
  "is_continuation c = (CHR 0x80 \<le> c \<and> c \<le> CHR 0xBF)"

definition py_len :: "string \<Rightarrow> nat" where
  \<comment> \<open>\<open>len(s)\<close> counts code points: the bytes that do not continue a UTF-8 sequence\<close>
  "py_len s = length (filter (\<lambda>c. \<not> is_continuation c) s)"

definition ljust :: "string \<Rightarrow> nat \<Rightarrow> string" where
  "ljust s width = s @ replicate (width - py_len s) CHR '' ''"

fun digits :: "nat \<Rightarrow> string" where
  \<comment> \<open>the decimal numeral of a number, as \<open>str\<close> and an f-string print it\<close>
  "digits n = (if n < 10 then [''0123456789'' ! n]
               else digits (n div 10) @ [''0123456789'' ! (n mod 10)])"

text \<open>The characters outside ASCII that the program prints, as UTF-8 bytes.\<close>

definition box_corner :: string where  \<comment> \<open>U+2514\<close>
  "box_corner = [CHR 0xE2, CHR 0x94, CHR 0x94]"

definition box_tee :: string where  \<comment> \<open>U+251C\<close>
  "box_tee = [CHR 0xE2, CHR 0x94, CHR 0x9C]"

definition box_dash :: string where  \<comment> \<open>U+2500\<close>
  "box_dash = [CHR 0xE2, CHR 0x94, CHR 0x80]"

definition box_bar :: string where  \<comment> \<open>U+2502\<close>
  "box_bar = [CHR 0xE2, CHR 0x94, CHR 0x82]"

definition right_arrow :: string where  \<comment> \<open>U+2192\<close>
  "right_arrow = [CHR 0xE2, CHR 0x86, CHR 0x92]"

definition apostrophe :: string where  \<comment> \<open>U+2019\<close>
  "apostrophe = [CHR 0xE2, CHR 0x80, CHR 0x99]"

definition em_dash :: string where  \<comment> \<open>U+2014\<close>
  "em_dash = [CHR 0xE2, CHR 0x80, CHR 0x94]"

definition last_branch :: string where
  "last_branch = box_corner @ box_dash @ box_dash @ '' ''"

definition mid_branch :: string where
  "mid_branch = box_tee @ box_dash @ box_dash @ '' ''"

definition last_extension :: string where
  "last_extension = ''    ''"

definition mid_extension :: string where
  "mid_extension = box_bar @ ''   ''"

section \<open>Paths\<close>

text \<open>
  \<open>pathlib.PurePosixPath\<close>: a root (empty, one slash or exactly two slashes) and the
  components of the path, without empty and \<open>.\<close> components.
\<close>

datatype pure_posix_path = PurePosixPath (root: string) (parts: "string list")

fun split_slash :: "string \<Rightarrow> string list" where
  "split_slash [] = [[]]"
| "split_slash (c # cs) =
     (if c = CHR ''/'' then [] # split_slash cs
      else (case split_slash cs of [] \<Rightarrow> [[c]] | x # xs \<Rightarrow> (c # x) # xs))"

fun join_slash :: "string list \<Rightarrow> string" where
  "join_slash [] = []"
| "join_slash [x] = x"
| "join_slash (x # y # ys) = x @ ''/'' @ join_slash (y # ys)"

definition splitroot :: "string \<Rightarrow> string \<times> string" where
  "splitroot p =
     (if take 1 p \<noteq> ''/'' then ([], p)
      else if take 1 (drop 1 p) \<noteq> ''/'' \<or> take 1 (drop 2 p) = ''/'' then (''/'', drop 1 p)
      else (take 2 p, drop 2 p))"

definition posix_path :: "string \<Rightarrow> pure_posix_path" where
  "posix_path s =
     (case splitroot s of
        (r, rest) \<Rightarrow> PurePosixPath r (filter (\<lambda>x. x \<noteq> [] \<and> x \<noteq> ''.'') (split_slash rest)))"

definition as_posix :: "pure_posix_path \<Rightarrow> string" where
  \<comment> \<open>\<open>p.as_posix()\<close> and \<open>str(p)\<close>\<close>
  "as_posix p = (if root p = [] \<and> parts p = [] then ''.'' else root p @ join_slash (parts p))"

definition joinpath :: "pure_posix_path \<Rightarrow> string \<Rightarrow> pure_posix_path" where
  \<comment> \<open>\<open>p / seg\<close>: a rooted segment replaces the path, another one extends it\<close>
  "joinpath p seg =
     (let q = posix_path seg
      in if root q \<noteq> [] then q else PurePosixPath (root p) (parts p @ parts q))"

definition path_name :: "string \<Rightarrow> string" where
  \<comment> \<open>\<open>Path.name\<close> of a resolved local path given as its string: the final component\<close>
  "path_name s = (case rev (split_slash s) of [] \<Rightarrow> [] | x # _ \<Rightarrow> x)"

section \<open>Exceptions, the remote end and the state of a run\<close>

datatype exn_class =
    OSError | FileNotFoundError | IsADirectoryError | PermissionError
  | SSHException | AuthenticationException | PasswordRequiredException
  | BadHostKeyException | ChannelException
  | EOFError | RecursionError | OtherException

datatype exn = Exn (cls: exn_class) (msg: string)

text \<open>
  The \<open>except\<close> clauses of the program, as predicates on the class of the exception.
  \<open>IOError\<close> is Python 3's \<open>OSError\<close>; paramiko's exceptions derive from
  \<open>SSHException\<close>, \<open>PasswordRequiredException\<close> from \<open>AuthenticationException\<close>.
\<close>

fun is_IOError :: "exn_class \<Rightarrow> bool" where
  "is_IOError OSError = True"
| "is_IOError FileNotFoundError = True"
| "is_IOError IsADirectoryError = True"
| "is_IOError PermissionError = True"
| "is_IOError _ = False"

fun is_SSHException :: "exn_class \<Rightarrow> bool" where
  "is_SSHException SSHException = True"
| "is_SSHException AuthenticationException = True"
| "is_SSHException PasswordRequiredException = True"
| "is_SSHException BadHostKeyException = True"
| "is_SSHException ChannelException = True"
| "is_SSHException _ = False"

fun is_upload_logged :: "exn_class \<Rightarrow> bool" where
  \<comment> \<open>\<open>except (PasswordRequiredException, AuthenticationException, BadHostKeyException,
      ChannelException)\<close> of \<open>upload_file\<close>\<close>
  "is_upload_logged PasswordRequiredException = True"
| "is_upload_logged AuthenticationException = True"
| "is_upload_logged BadHostKeyException = True"
| "is_upload_logged ChannelException = True"
| "is_upload_logged _ = False"

record sftp_attrs =
  st_mode :: nat
  st_mtime :: nat

definition S_ISDIR :: "nat \<Rightarrow> bool" where
  \<comment> \<open>\<open>stat.S_ISDIR\<close>: \<open>(mode & 0o170000) == 0o040000\<close>\<close>
  "S_ISDIR mode = (mode AND 61440 = 16384)"

datatype request =
    Stat string | Listdir string | Remove string | Rmdir string | Mkdir string
  | Put string string bool

datatype level = INFO | ERROR

text \<open>
  The collaborators the program does not implement are parameters of the model: the
  remote end (type \<open>'r\<close> is the state of the remote store, \<open>'l\<close> the state of the local
  file system) answers each primitive of the client as a function of the store, and the
  connection steps of \<open>sftp_connection\<close> succeed (\<open>None\<close>) or raise. \<open>stat\<close> and
  \<open>listdir\<close> are queries; \<open>remove\<close>, \<open>rmdir\<close>, \<open>mkdir\<close> and \<open>put\<close> return the new store.
  \<open>recursion_limit\<close> is the number of nested \<open>_walk\<close> frames the interpreter allows
  before it raises \<open>RecursionError\<close>.
\<close>

record ('r, 'l) env =
  new_transport :: "string \<Rightarrow> nat \<Rightarrow> exn option"
  transport_connect :: "string \<Rightarrow> nat \<Rightarrow> string \<Rightarrow> string \<Rightarrow> exn option"
  from_transport :: "string \<Rightarrow> nat \<Rightarrow> exn option"
  sv_stat :: "'r \<Rightarrow> string \<Rightarrow> exn + sftp_attrs"
  sv_listdir :: "'r \<Rightarrow> string \<Rightarrow> exn + string list"
  sv_remove :: "'r \<Rightarrow> string \<Rightarrow> exn option \<times> 'r"
  sv_rmdir :: "'r \<Rightarrow> string \<Rightarrow> exn option \<times> 'r"
  sv_mkdir :: "'r \<Rightarrow> string \<Rightarrow> exn option \<times> 'r"
  sv_put :: "'r \<Rightarrow> 'l \<Rightarrow> string \<Rightarrow> string \<Rightarrow> bool \<Rightarrow> exn option \<times> 'r"
  lf_resolve :: "'l \<Rightarrow> string \<Rightarrow> string"
  lf_exists :: "'l \<Rightarrow> string \<Rightarrow> bool"
  lf_is_file :: "'l \<Rightarrow> string \<Rightarrow> bool"
  lf_write_csv :: "'l \<Rightarrow> string \<Rightarrow> (string \<times> string) list \<Rightarrow> exn option \<times> 'l"
  ctime :: "nat \<Rightarrow> string"
  py_repr :: "string \<Rightarrow> string"
  recursion_limit :: nat

text \<open>
  The state of a run: the lines still to be read from standard input, the prompts shown,
  the lines printed, the log calls made, the remote store, the local file system, the
  requests sent to the remote end, and whether the transport and the SFTP channel of the
  session scope are open.
\<close>

record ('r, 'l) world =
  stdin :: "string list"
  prompts :: "string list"
  stdout :: "string list"
  logged :: "(level \<times> string) list"
  store :: 'r
  localfs :: 'l
  requests :: "request list"
  transport_open :: bool
  sftp_open :: bool

definition log_msg :: "level \<Rightarrow> string \<Rightarrow> ('r, 'l) world \<Rightarrow> ('r, 'l) world" where
  "log_msg lv m w = w\<lparr>logged := logged w @ [(lv, m)]\<rparr>"

definition print_line :: "string \<Rightarrow> ('r, 'l) world \<Rightarrow> ('r, 'l) world" where
  "print_line m w = w\<lparr>stdout := stdout w @ [m]\<rparr>"

definition sftp_stat ::
  "('r, 'l) env \<Rightarrow> string \<Rightarrow> ('r, 'l) world \<Rightarrow> (exn + sftp_attrs) \<times> ('r, 'l) world" where
  "sftp_stat env p w = (sv_stat env (store w) p, w\<lparr>requests := requests w @ [Stat p]\<rparr>)"

definition sftp_listdir ::
  "('r, 'l) env \<Rightarrow> string \<Rightarrow> ('r, 'l) world \<Rightarrow> (exn + string list) \<times> ('r, 'l) world" where
  "sftp_listdir env p w = (sv_listdir env (store w) p, w\<lparr>requests := requests w @ [Listdir p]\<rparr>)"

definition command ::
  "request \<Rightarrow> exn option \<times> 'r \<Rightarrow> ('r, 'l) world \<Rightarrow> (exn + unit) \<times> ('r, 'l) world" where
  \<comment> \<open>a request that changes the store: record it, take the new store, raise on an error\<close>
  "command rq ans w =
     ((case fst ans of Some e \<Rightarrow> Inl e | None \<Rightarrow> Inr ()),
      w\<lparr>store := snd ans, requests := requests w @ [rq]\<rparr>)"

definition sftp_remove ::
  "('r, 'l) env \<Rightarrow> string \<Rightarrow> ('r, 'l) world \<Rightarrow> (exn + unit) \<times> ('r, 'l) world" where
  "sftp_remove env p w = command (Remove p) (sv_remove env (store w) p) w"

definition sftp_rmdir ::
  "('r, 'l) env \<Rightarrow> string \<Rightarrow> ('r, 'l) world \<Rightarrow> (exn + unit) \<times> ('r, 'l) world" where
  "sftp_rmdir env p w = command (Rmdir p) (sv_rmdir env (store w) p) w"

definition sftp_mkdir ::
  "('r, 'l) env \<Rightarrow> string \<Rightarrow> ('r, 'l) world \<Rightarrow> (exn + unit) \<times> ('r, 'l) world" where
  "sftp_mkdir env p w = command (Mkdir p) (sv_mkdir env (store w) p) w"

definition sftp_put ::
  "('r, 'l) env \<Rightarrow> string \<Rightarrow> string \<Rightarrow> bool \<Rightarrow> ('r, 'l) world \<Rightarrow> (exn + unit) \<times> ('r, 'l) world" where
  "sftp_put env lp rp confirm w =
     command (Put lp rp confirm) (sv_put env (store w) (localfs w) lp rp confirm) w"

section \<open>The session scope\<close>

text \<open>
  \<open>sftp_connection\<close> (lines 48-58) is a generator-based context manager; the body of the
  \<open>with\<close> statement is the argument \<open>body\<close>. The transport is created and connected and
  the channel opened before the \<open>try\<close>; the \<open>finally\<close> closes both after the body,
  whether it returned or raised.
\<close>

definition sftp_connection ::
  "('r, 'l) env \<Rightarrow> string \<Rightarrow> nat \<Rightarrow> string \<Rightarrow> string \<Rightarrow>
   (('r, 'l) world \<Rightarrow> (exn + 'a) \<times> ('r, 'l) world) \<Rightarrow>
   ('r, 'l) world \<Rightarrow> (exn + 'a) \<times> ('r, 'l) world" where
  "sftp_connection env host port username password body w =
     (case new_transport env host port of
        Some e \<Rightarrow> (Inl e, w)
      | None \<Rightarrow>
          let w1 = w\<lparr>transport_open := True\<rparr>
          in (case transport_connect env host port username password of
                Some e \<Rightarrow> (Inl e, w1)
              | None \<Rightarrow>
                  (case from_transport env host port of
                     Some e \<Rightarrow> (Inl e, w1)
                   | None \<Rightarrow>
                       (case body (w1\<lparr>sftp_open := True\<rparr>) of
                          (r, w2) \<Rightarrow> (r, w2\<lparr>sftp_open := False, transport_open := False\<rparr>)))))"

definition session_ok :: "('r, 'l) env \<Rightarrow> string \<Rightarrow> nat \<Rightarrow> string \<Rightarrow> string \<Rightarrow> bool" where
  \<comment> \<open>the three connection steps succeed\<close>
  "session_ok env host port username password =
     (new_transport env host port = None \<and>
      transport_connect env host port username password = None \<and>
      from_transport env host port = None)"

section \<open>The operations\<close>

text \<open>\<open>upload_file\<close> (lines 61-96). The local path is the string the operator gave.\<close>

definition upload_file ::
  "('r, 'l) env \<Rightarrow> string \<Rightarrow> pure_posix_path \<Rightarrow> string \<Rightarrow> nat \<Rightarrow> string \<Rightarrow> string \<Rightarrow>
   ('r, 'l) world \<Rightarrow> (exn + unit) \<times> ('r, 'l) world" where
  "upload_file env local_path remote_dir hostname port username password w =
     (let local_path' = lf_resolve env (localfs w) local_path
      in if \<not> lf_exists env (localfs w) local_path' \<or> \<not> lf_is_file env (localfs w) local_path'
         then (Inl (Exn FileNotFoundError (local_path' @ '' not found or not a file'')),
               log_msg ERROR (''File path is not valid or isn'' @ apostrophe @ ''t a file: ''
                              @ local_path') w)
         else
           let w0 = log_msg INFO ''Paths found and valid, starting upload.'' w;
               remote_file = joinpath remote_dir (path_name local_path');
               remote_str = as_posix remote_file
           in (case sftp_connection env hostname port username password
                      (\<lambda>w1.
                         let w2 = log_msg INFO (''Uploading '' @ local_path' @ '' '' @ right_arrow
                                                @ '' '' @ as_posix remote_dir) w1
                         in (case sftp_put env local_path' remote_str True w2 of
                               (Inl e, w3) \<Rightarrow> (Inl e, w3)
                             | (Inr u, w3) \<Rightarrow>
                                 (Inr (), log_msg INFO ''Upload completed successfully.'' w3)))
                      w0 of
                 (Inl e, w4) \<Rightarrow>
                   if is_upload_logged (cls e)
                   then (Inl e, log_msg ERROR (''An exception has occured! Error '' @ msg e) w4)
                   else (Inl e, w4)
               | (Inr u, w4) \<Rightarrow> (Inr (), w4)))"

text \<open>
  \<open>create_dir\<close> (lines 98-115): the \<open>try\<close> inside the session scope catches every
  \<open>Exception\<close> of the request and prints it.
\<close>

definition create_dir ::
  "('r, 'l) env \<Rightarrow> pure_posix_path \<Rightarrow> string \<Rightarrow> nat \<Rightarrow> string \<Rightarrow> string \<Rightarrow>
   ('r, 'l) world \<Rightarrow> (exn + unit) \<times> ('r, 'l) world" where
  "create_dir env remote_dir hostname port username password w =
     (let remote_str = as_posix remote_dir
      in sftp_connection env hostname port username password
           (\<lambda>w1. case sftp_mkdir env (as_posix remote_dir) w1 of
                    (Inl e, w2) \<Rightarrow> (Inr (), print_line (''Error creating folder: '' @ msg e) w2)
                  | (Inr u, w2) \<Rightarrow>
                      (Inr (), print_line (''Folder '' @ [CHR 0x27] @ remote_str @ [CHR 0x27]
                                           @ '' created successfully on '' @ hostname)
                                 (w2\<lparr>sftp_open := False\<rparr>)))
           w)"

text \<open>\<open>delete\<close> (lines 117-155).\<close>

definition delete ::
  "('r, 'l) env \<Rightarrow> pure_posix_path \<Rightarrow> string \<Rightarrow> nat \<Rightarrow> string \<Rightarrow> string \<Rightarrow> string \<Rightarrow>
   ('r, 'l) world \<Rightarrow> (exn + unit) \<times> ('r, 'l) world" where
  "delete env remote_dir hostname port username password deletion_type w =
     (let remote_str = as_posix remote_dir
      in sftp_connection env hostname port username password
           (\<lambda>w1.
              case (if deletion_type = ''file'' then
                      (case sftp_stat env remote_str w1 of
                         (Inl e, w2) \<Rightarrow>
                           if is_IOError (cls e)
                           then (Inl (Exn FileNotFoundError (remote_str @ '' not found!'')),
                                 log_msg ERROR (''Remote file not found: '' @ remote_str) w2)
                           else (Inl e, w2)
                       | (Inr attrs, w2) \<Rightarrow>
                           if S_ISDIR (st_mode attrs)
                           then (Inl (Exn IsADirectoryError (remote_str @ '' is a directory!'')),
                                 log_msg ERROR (''Remote path is a directory: '' @ remote_str) w2)
                           else (case sftp_remove env remote_str w2 of
                                   (Inl e, w3) \<Rightarrow> (Inl e, w3)
                                 | (Inr u, w3) \<Rightarrow>
                                     (Inr (), log_msg INFO (''File '' @ [CHR 0x27] @ remote_str
                                        @ [CHR 0x27] @ '' deleted successfully.'') w3)))
                    else if deletion_type = ''folder'' then
                      (case sftp_rmdir env remote_str w1 of
                         (Inl e, w2) \<Rightarrow> (Inl e, w2)
                       | (Inr u, w2) \<Rightarrow>
                           (Inr (), log_msg INFO (''Folder '' @ [CHR 0x27] @ remote_str
                              @ [CHR 0x27] @ '' deleted successfully.'') w2))
                    else (Inr (), w1)) of
                (Inl e, w') \<Rightarrow>
                  if is_SSHException (cls e)
                  then (Inl e, log_msg ERROR (''sFTP error: '' @ msg e) w')
                  else (Inl e, w')
              | (Inr u, w') \<Rightarrow> (Inr (), w'))
           w)"

text \<open>\<open>view_contents\<close> (lines 157-177); \<open>view_loop\<close> is its \<open>for\<close> loop.\<close>

fun view_loop ::
  "('r, 'l) env \<Rightarrow> string \<Rightarrow> string list \<Rightarrow> (string \<times> string) list \<Rightarrow> ('r, 'l) world \<Rightarrow>
   (exn + (string \<times> string) list) \<times> ('r, 'l) world" where
  "view_loop env remote_str [] out w = (Inr out, w)"
| "view_loop env remote_str (name # rest) out w =
     (case sftp_stat env (remote_str @ ''/'' @ name) w of
        (Inl e, w1) \<Rightarrow> (Inl e, w1)
      | (Inr attrs, w1) \<Rightarrow>
          view_loop env remote_str rest (out @ [(name, ctime env (st_mtime attrs))]) w1)"

definition view_contents ::
  "('r, 'l) env \<Rightarrow> pure_posix_path \<Rightarrow> string \<Rightarrow> nat \<Rightarrow> string \<Rightarrow> string \<Rightarrow>
   ('r, 'l) world \<Rightarrow> (exn + (string \<times> string) list) \<times> ('r, 'l) world" where
  "view_contents env remote_dir hostname port username password w =
     (let remote_str = as_posix remote_dir
      in sftp_connection env hostname port username password
           (\<lambda>w1. case sftp_listdir env remote_str w1 of
                    (Inl e, w2) \<Rightarrow> (Inl e, w2)
                  | (Inr names, w2) \<Rightarrow> view_loop env remote_str (sort names) [] w2)
           w)"

text \<open>
  \<open>output_csv\<close> (lines 179-196). Creating the parent folders and writing the header and
  the rows is one step of the local file system.
\<close>

definition output_csv ::
  "('r, 'l) env \<Rightarrow> (string \<times> string) list \<Rightarrow> string \<Rightarrow>
   ('r, 'l) world \<Rightarrow> (exn + unit) \<times> ('r, 'l) world" where
  "output_csv env rows output_path w =
     (case lf_write_csv env (localfs w) output_path ((''File'', ''Last Modified'') # rows) of
        (Some e, l') \<Rightarrow> (Inl e, w\<lparr>localfs := l'\<rparr>)
      | (None, l') \<Rightarrow>
          (Inr (), log_msg INFO (''Wrote '' @ digits (length rows) @ '' entries to '' @ output_path)
                     (w\<lparr>localfs := l'\<rparr>)))"

text \<open>
  \<open>stfp_formatter\<close> (lines 198-232) and its helper \<open>_walk\<close>. The first argument of
  \<open>walk\<close> is the number of frames still allowed; \<open>walk_entries\<close> is the \<open>for\<close> loop
  over \<open>enumerate(entries)\<close>, given the length of \<open>entries\<close>.
\<close>

fun walk ::
  "('r, 'l) env \<Rightarrow> nat \<Rightarrow> string \<Rightarrow> string \<Rightarrow> ('r, 'l) world \<Rightarrow> (exn + unit) \<times> ('r, 'l) world"
and walk_entries ::
  "('r, 'l) env \<Rightarrow> nat \<Rightarrow> string \<Rightarrow> string \<Rightarrow> nat \<Rightarrow> (nat \<times> string) list \<Rightarrow>
   ('r, 'l) world \<Rightarrow> (exn + unit) \<times> ('r, 'l) world" where
  "walk env 0 path prefix w =
     (Inl (Exn RecursionError ''maximum recursion depth exceeded''), w)"
| "walk env (Suc d) path prefix w =
     (case sftp_listdir env path w of
        (Inl e, w1) \<Rightarrow> (Inl e, w1)
      | (Inr names, w1) \<Rightarrow>
          walk_entries env d path prefix (length names) (enumerate 0 (sort names)) w1)"
| "walk_entries env d path prefix n [] w = (Inr (), w)"
| "walk_entries env d path prefix n ((idx, name) # rest) w =
     (let full = rstrip_slash path @ ''/'' @ name
      in case sftp_stat env full w of
           (Inl e, w1) \<Rightarrow> (Inl e, w1)
         | (Inr attrs, w1) \<Rightarrow>
             let is_dir = S_ISDIR (st_mode attrs);
                 branch = (if idx = n - 1 then last_branch else mid_branch);
                 suffix = (if is_dir then ''/'' else []);
                 w2 = print_line (prefix @ branch @ name @ suffix) w1
             in if is_dir then
                  let extension = (if idx = n - 1 then last_extension else mid_extension)
                  in (case walk env d full (prefix @ extension) w2 of
                        (Inl e, w3) \<Rightarrow> (Inl e, w3)
                      | (Inr u, w3) \<Rightarrow> walk_entries env d path prefix n rest w3)
                else walk_entries env d path prefix n rest w2)"

definition stfp_formatter ::
  "('r, 'l) env \<Rightarrow> string \<Rightarrow> nat \<Rightarrow> string \<Rightarrow> string \<Rightarrow> pure_posix_path \<Rightarrow>
   ('r, 'l) world \<Rightarrow> (exn + unit) \<times> ('r, 'l) world" where
  "stfp_formatter env hostname port username password remote_dir w =
     (let root_str = rstrip_slash (as_posix remote_dir)
      in sftp_connection env hostname port username password
           (\<lambda>w1. case walk env (recursion_limit env) root_str [] (print_line (root_str @ ''/'') w1) of
                    (r, w2) \<Rightarrow> (r, w2\<lparr>sftp_open := False\<rparr>))
           w)"

section \<open>The interactive shell\<close>

text \<open>
  The shell ends by \<open>sys.exit\<close> (\<open>SystemExit\<close> is not an \<open>Exception\<close>, so no
  \<open>except Exception\<close> catches it), by an exception nothing catches, or by returning.
\<close>

datatype halt = SystemExit nat | Uncaught exn

definition exit_status :: "halt + unit \<Rightarrow> nat" where
  \<comment> \<open>the status of the process: an uncaught exception ends it with status 1\<close>
  "exit_status r = (case r of Inl (SystemExit n) \<Rightarrow> n | Inl (Uncaught e) \<Rightarrow> 1 | Inr u \<Rightarrow> 0)"

definition py_input ::
  "string \<Rightarrow> ('r, 'l) world \<Rightarrow> (halt + string) \<times> ('r, 'l) world" where
  \<comment> \<open>the builtin \<open>input(prompt)\<close>: the next line, \<open>EOFError\<close> at the end of the input\<close>
  "py_input prompt w =
     (case stdin w of
        [] \<Rightarrow> (Inl (Uncaught (Exn EOFError ''EOF when reading a line'')),
               w\<lparr>prompts := prompts w @ [prompt]\<rparr>)
      | l # ls \<Rightarrow> (Inr l, w\<lparr>stdin := ls, prompts := prompts w @ [prompt]\<rparr>))"

text \<open>\<open>ask\<close> (lines 37-46).\<close>

definition ask ::
  "string \<Rightarrow> ('r, 'l) world \<Rightarrow> (halt + string) \<times> ('r, 'l) world" where
  "ask prompt w =
     (case py_input prompt w of
        (Inl h, w1) \<Rightarrow> (Inl h, w1)
      | (Inr l, w1) \<Rightarrow>
          let response = strip l
          in if lower response = ''exit''
             then (Inl (SystemExit 0), log_msg INFO ''Goodbye!'' w1)
             else (Inr response, w1))"

record creds =
  cr_host :: string
  cr_username :: string
  cr_password :: string

datatype step = Break | Continue creds

definition exit_on_error ::
  "string \<Rightarrow> (exn + 'a) \<times> ('r, 'l) world \<Rightarrow> (halt + 'a) \<times> ('r, 'l) world" where
  \<comment> \<open>\<open>try: ... except Exception as e: log.error(f"<what>{e}"); sys.exit(1)\<close>\<close>
  "exit_on_error what rw =
     (case rw of
        (Inl e, w) \<Rightarrow> (Inl (SystemExit 1), log_msg ERROR (what @ msg e) w)
      | (Inr x, w) \<Rightarrow> (Inr x, w))"

definition print_listing :: "(string \<times> string) list \<Rightarrow> ('r, 'l) world \<Rightarrow> ('r, 'l) world" where
  \<comment> \<open>lines 308-314\<close>
  "print_listing files w =
     (let max_name = fold max (map (\<lambda>(name, mtime). py_len name) files) (py_len ''File'');
          header = ljust ''File'' max_name @ ''   Last Modified'';
          sep = replicate (py_len header) CHR ''-''
      in fold (\<lambda>(name, mtime). print_line (ljust name max_name @ ''   '' @ mtime)) files
           (print_line sep (print_line header w)))"

definition read_credentials ::
  "('r, 'l) world \<Rightarrow> (halt + creds) \<times> ('r, 'l) world" where
  \<comment> \<open>lines 261-263 and 349-351\<close>
  "read_credentials w =
     (case ask ''Host: '' w of
        (Inl h, w1) \<Rightarrow> (Inl h, w1)
      | (Inr a, w1) \<Rightarrow>
          (case ask ''Username: '' w1 of
             (Inl h, w2) \<Rightarrow> (Inl h, w2)
           | (Inr b, w2) \<Rightarrow>
               (case ask ''Password: '' w2 of
                  (Inl h, w3) \<Rightarrow> (Inl h, w3)
                | (Inr c, w3) \<Rightarrow>
                    (Inr \<lparr>cr_host = strip a, cr_username = b, cr_password = strip c\<rparr>, w3))))"

definition menu_prompt :: string where
  "menu_prompt = ''Type '' @ [CHR 0x27] @ ''upload'' @ [CHR 0x27] @ '' to send a file, ''
     @ [CHR 0x27] @ ''folder'' @ [CHR 0x27] @ '' to make a new folder, ''
     @ [CHR 0x27] @ ''delete'' @ [CHR 0x27] @ '' to remove either or ''
     @ [CHR 0x27] @ ''view'' @ [CHR 0x27] @ ''  to list all files within the server: ''"

definition view_prompt :: string where
  "view_prompt = ''Type '' @ [CHR 0x27] @ ''list'' @ [CHR 0x27] @ '' for flat listing, ''
     @ [CHR 0x27] @ ''csv'' @ [CHR 0x27] @ '' for the lists'' @ [CHR 0x27]
     @ '' contents as a .csv, or '' @ [CHR 0x27] @ ''tree'' @ [CHR 0x27]
     @ '' for full directory tree: ''"

definition invalid_view_mode :: string where
  "invalid_view_mode = ''Invalid view mode'' @ em_dash @ ''please enter ''
     @ [CHR 0x27] @ ''list'' @ [CHR 0x27] @ '', '' @ [CHR 0x27] @ ''tree'' @ [CHR 0x27]
     @ '', or '' @ [CHR 0x27] @ ''csv'' @ [CHR 0x27] @ ''.''"

definition invalid_choice :: "string \<Rightarrow> string" where
  "invalid_choice r = ''Invalid choice '' @ r @ ''; please enter ''
     @ [CHR 0x27] @ ''upload'' @ [CHR 0x27] @ '', '' @ [CHR 0x27] @ ''delete'' @ [CHR 0x27]
     @ '', '' @ [CHR 0x27] @ ''folder'' @ [CHR 0x27] @ '' or '' @ [CHR 0x27] @ ''view''
     @ [CHR 0x27] @ ''.''"

definition invalid_answer :: string where
  "invalid_answer = ''Invalid answer-please enter '' @ [CHR 0x27] @ ''yes'' @ [CHR 0x27]
     @ '', or '' @ [CHR 0x27] @ ''no'' @ [CHR 0x27] @ ''.''"

text \<open>
  The \<open>if\<close>/\<open>elif\<close> chain of the loop of \<open>main\<close> (lines 274-337), for the choice read.
  The port is 22.
\<close>

definition dispatch ::
  "('r, 'l) env \<Rightarrow> creds \<Rightarrow> string \<Rightarrow> ('r, 'l) world \<Rightarrow> (halt + unit) \<times> ('r, 'l) world" where
  "dispatch env c choice w =
     (if choice = ''upload'' then
        (case ask ''Local file to upload: '' w of
           (Inl h, w1) \<Rightarrow> (Inl h, w1)
         | (Inr src, w1) \<Rightarrow>
             (case ask ''Remote directory: '' w1 of
                (Inl h, w2) \<Rightarrow> (Inl h, w2)
              | (Inr a, w2) \<Rightarrow>
                  exit_on_error ''Upload failed: ''
                    (upload_file env src (posix_path (strip a))
                       (cr_host c) 22 (cr_username c) (cr_password c) w2)))
      else if choice = ''folder'' then
        (case ask ''New remote directory: '' w of
           (Inl h, w1) \<Rightarrow> (Inl h, w1)
         | (Inr a, w1) \<Rightarrow>
             exit_on_error ''Folder creation failed: ''
               (create_dir env (posix_path (strip a))
                  (cr_host c) 22 (cr_username c) (cr_password c) w1))
      else if choice = ''delete'' then
        (case py_input ''File or Folder? '' w of
           (Inl h, w1) \<Rightarrow> (Inl h, w1)
         | (Inr deletion_type, w1) \<Rightarrow>
             (case ask ''Remote directory: '' w1 of
                (Inl h, w2) \<Rightarrow> (Inl h, w2)
              | (Inr a, w2) \<Rightarrow>
                  exit_on_error ''Deletion failed: ''
                    (delete env (posix_path (strip a))
                       (cr_host c) 22 (cr_username c) (cr_password c) deletion_type w2)))
      else if choice = ''view'' then
        (case ask ''Remote directory to list: '' w of
           (Inl h, w1) \<Rightarrow> (Inl h, w1)
         | (Inr a, w1) \<Rightarrow>
             (case ask view_prompt w1 of
                (Inl h, w2) \<Rightarrow> (Inl h, w2)
              | (Inr b, w2) \<Rightarrow>
                  let remote_dir = posix_path (strip a); view_mode = lower (strip b)
                  in if view_mode = ''list'' then
                       (case exit_on_error ''Failed to list directory: ''
                               (view_contents env remote_dir
                                  (cr_host c) 22 (cr_username c) (cr_password c) w2) of
                          (Inl h, w3) \<Rightarrow> (Inl h, w3)
                        | (Inr files, w3) \<Rightarrow> (Inr (), print_listing files w3))
                     else if view_mode = ''tree'' then
                       exit_on_error ''Failed to print tree: ''
                         (stfp_formatter env (cr_host c) 22 (cr_username c) (cr_password c)
                            remote_dir w2)
                     else if view_mode = ''csv'' then
                       (case view_contents env remote_dir
                               (cr_host c) 22 (cr_username c) (cr_password c) w2 of
                          (Inl e, w3) \<Rightarrow> (Inl (Uncaught e), w3)
                        | (Inr files, w3) \<Rightarrow>
                            (case ask ''Output csv file path: '' w3 of
                               (Inl h, w4) \<Rightarrow> (Inl h, w4)
                             | (Inr out_file, w4) \<Rightarrow>
                                 exit_on_error ''Failed to write csv: ''
                                   (output_csv env files (as_posix (posix_path out_file)) w4)))
                     else (Inl (SystemExit 1), log_msg ERROR invalid_view_mode w2)))
      else (Inl (SystemExit 1), log_msg ERROR (invalid_choice (py_repr env choice)) w))"

text \<open>The restart logic at the end of the loop body (lines 340-355).\<close>

definition restart ::
  "creds \<Rightarrow> ('r, 'l) world \<Rightarrow> (halt + step) \<times> ('r, 'l) world" where
  "restart c w =
     (case ask ''Continue? (yes/no): '' w of
        (Inl h, w1) \<Rightarrow> (Inl h, w1)
      | (Inr a, w1) \<Rightarrow>
          if lower (strip a) = ''no'' then (Inr Break, log_msg INFO ''Goodbye!'' w1)
          else
            (case ask ''Proceed with the same sFTP credentials? (yes/no): '' w1 of
               (Inl h, w2) \<Rightarrow> (Inl h, w2)
             | (Inr b, w2) \<Rightarrow>
                 let same_creds = lower (strip b)
                 in if same_creds = ''yes'' then (Inr (Continue c), w2)
                    else if same_creds = ''no'' then
                      (case read_credentials
                              (log_msg INFO ''Please reenter sFTP credentials:'' w2) of
                         (Inl h, w3) \<Rightarrow> (Inl h, w3)
                       | (Inr c', w3) \<Rightarrow> (Inr (Continue c'), w3))
                    else (Inr (Continue c), log_msg ERROR invalid_answer w2)))"

text \<open>One iteration of the \<open>while True\<close> loop (lines 268-355).\<close>

definition loop_body ::
  "('r, 'l) env \<Rightarrow> creds \<Rightarrow> ('r, 'l) world \<Rightarrow> (halt + step) \<times> ('r, 'l) world" where
  "loop_body env c w =
     (case ask menu_prompt w of
        (Inl h, w1) \<Rightarrow> (Inl h, w1)
      | (Inr a, w1) \<Rightarrow>
          (case dispatch env c (lower (strip a)) w1 of
             (Inl h, w2) \<Rightarrow> (Inl h, w2)
           | (Inr u, w2) \<Rightarrow> restart c w2))"

text \<open>
  The \<open>while True\<close> loop and \<open>main\<close> (lines 235-355). Every iteration reads at least one
  line, and the input is finite (at its end \<open>input\<close> raises \<open>EOFError\<close>), so the loop
  ends; the termination proof follows the lemmas it needs. The banner (lines 246-259) is
  the parameter \<open>banner\<close>.
\<close>

function main_loop ::
  "('r, 'l) env \<Rightarrow> creds \<Rightarrow> ('r, 'l) world \<Rightarrow> (halt + unit) \<times> ('r, 'l) world" where
  "main_loop env c w =
     (case loop_body env c w of
        (Inl h, w1) \<Rightarrow> (Inl h, w1)
      | (Inr Break, w1) \<Rightarrow> (Inr (), w1)
      | (Inr (Continue c'), w1) \<Rightarrow> main_loop env c' w1)"
  by pat_completeness auto

definition main ::
  "('r, 'l) env \<Rightarrow> string \<Rightarrow> ('r, 'l) world \<Rightarrow> (halt + unit) \<times> ('r, 'l) world" where
  "main env banner w =
     (case read_credentials (print_line banner w) of
        (Inl h, w1) \<Rightarrow> (Inl h, w1)
      | (Inr c, w1) \<Rightarrow> main_loop env c w1)"

section \<open>The tree as the specification words it\<close>

text \<open>
  The rendering of a directory as the specification describes it (section 4.6), as a
  function of the remote store, to compare \<open>walk\<close> with: at each directory the entries
  sorted by name ascending; directory-ness by stat; the last entry with the corner
  connector and all others with the tee; directory names with a slash; the children of a
  directory under the current prefix extended by four spaces if the directory was the last
  entry and by the vertical bar otherwise. The first argument bounds the depth.
\<close>

definition listing :: "('r, 'l) env \<Rightarrow> 'r \<Rightarrow> string \<Rightarrow> string list" where
  "listing env s path = (case sv_listdir env s path of Inl e \<Rightarrow> [] | Inr names \<Rightarrow> names)"

definition is_dir_at :: "('r, 'l) env \<Rightarrow> 'r \<Rightarrow> string \<Rightarrow> bool" where
  "is_dir_at env s full =
     (case sv_stat env s full of Inl e \<Rightarrow> False | Inr attrs \<Rightarrow> S_ISDIR (st_mode attrs))"

definition mtime_at :: "('r, 'l) env \<Rightarrow> 'r \<Rightarrow> string \<Rightarrow> string" where
  \<comment> \<open>the modification time of an entry as the flat listing shows it\<close>
  "mtime_at env s full =
     (case sv_stat env s full of Inl e \<Rightarrow> [] | Inr attrs \<Rightarrow> ctime env (st_mtime attrs))"

definition entry_line :: "string \<Rightarrow> bool \<Rightarrow> string \<Rightarrow> bool \<Rightarrow> string" where
  "entry_line prefix is_last name is_dir =
     prefix @ (if is_last then last_branch else mid_branch) @ name @ (if is_dir then ''/'' else [])"

definition child_prefix :: "string \<Rightarrow> bool \<Rightarrow> string" where
  "child_prefix prefix is_last = prefix @ (if is_last then last_extension else mid_extension)"

fun tree_lines :: "('r, 'l) env \<Rightarrow> 'r \<Rightarrow> nat \<Rightarrow> string \<Rightarrow> string \<Rightarrow> string list" where
  "tree_lines env s 0 path prefix = []"
| "tree_lines env s (Suc d) path prefix =
     (let entries = sort (listing env s path)
      in concat (map (\<lambda>(idx, name).
                   let full = rstrip_slash path @ ''/'' @ name;
                       is_last = (idx = length entries - 1);
                       is_dir = is_dir_at env s full
                   in entry_line prefix is_last name is_dir
                      # (if is_dir then tree_lines env s d full (child_prefix prefix is_last)
                         else []))
                 (enumerate 0 entries)))"

section \<open>An example remote end\<close>

text \<open>
  A small remote end to run the model on: the store is a list of paths with their
  attributes, the local file system the list of its regular files. One host is reachable
  and one password accepted.
\<close>

definition is_child :: "string \<Rightarrow> string \<Rightarrow> bool" where
  "is_child p q = (length p + 1 < length q \<and> take (length p + 1) q = p @ ''/''
                   \<and> CHR ''/'' \<notin> set (drop (length p + 1) q))"

definition no_such_file :: exn where
  "no_such_file = Exn OSError ''[Errno 2] No such file''"

definition demo_stat :: "(string \<times> sftp_attrs) list \<Rightarrow> string \<Rightarrow> exn + sftp_attrs" where
  "demo_stat s p = (case map_of s p of None \<Rightarrow> Inl no_such_file | Some a \<Rightarrow> Inr a)"

definition demo_listdir :: "(string \<times> sftp_attrs) list \<Rightarrow> string \<Rightarrow> exn + string list" where
  "demo_listdir s p =
     (case map_of s p of
        None \<Rightarrow> Inl no_such_file
      | Some a \<Rightarrow>
          if S_ISDIR (st_mode a)
          then Inr (map (\<lambda>(q, b). drop (length p + 1) q) (filter (\<lambda>(q, b). is_child p q) s))
          else Inl (Exn OSError ''Failure''))"

definition demo_remove ::
  "(string \<times> sftp_attrs) list \<Rightarrow> string \<Rightarrow> exn option \<times> (string \<times> sftp_attrs) list" where
  "demo_remove s p =
     (case map_of s p of
        None \<Rightarrow> (Some no_such_file, s)
      | Some a \<Rightarrow>
          if S_ISDIR (st_mode a) then (Some (Exn OSError ''Failure''), s)
          else (None, filter (\<lambda>(q, b). q \<noteq> p) s))"

definition demo_rmdir ::
  "(string \<times> sftp_attrs) list \<Rightarrow> string \<Rightarrow> exn option \<times> (string \<times> sftp_attrs) list" where
  "demo_rmdir s p =
     (case map_of s p of
        None \<Rightarrow> (Some no_such_file, s)
      | Some a \<Rightarrow>
          if S_ISDIR (st_mode a) \<and> filter (\<lambda>(q, b). is_child p q) s = []
          then (None, filter (\<lambda>(q, b). q \<noteq> p) s)
          else (Some (Exn OSError ''Failure''), s))"

definition demo_mkdir ::
  "(string \<times> sftp_attrs) list \<Rightarrow> string \<Rightarrow> exn option \<times> (string \<times> sftp_attrs) list" where
  "demo_mkdir s p =
     (case map_of s p of
        None \<Rightarrow> (None, s @ [(p, \<lparr>st_mode = 16877, st_mtime = 0\<rparr>)])
      | Some a \<Rightarrow> (Some (Exn OSError ''Failure''), s))"

definition demo_put ::
  "(string \<times> sftp_attrs) list \<Rightarrow> string list \<Rightarrow> string \<Rightarrow> string \<Rightarrow> bool \<Rightarrow>
   exn option \<times> (string \<times> sftp_attrs) list" where
  "demo_put s l lp rp confirm =
     (if lp \<in> set l
      then (None, filter (\<lambda>(q, b). q \<noteq> rp) s @ [(rp, \<lparr>st_mode = 33188, st_mtime = 0\<rparr>)])
      else (Some no_such_file, s))"

definition demo_env :: "((string \<times> sftp_attrs) list, string list) env" where
  "demo_env =
     \<lparr>new_transport =
        (\<lambda>host port. if host = ''sftp.example.org'' \<and> port = 22 then None
                      else Some (Exn SSHException ''Unable to connect'')),
      transport_connect =
        (\<lambda>host port username password.
           if password = ''secret'' then None
           else Some (Exn AuthenticationException ''Authentication failed.'')),
      from_transport = (\<lambda>host port. None),
      sv_stat = demo_stat,
      sv_listdir = demo_listdir,
      sv_remove = demo_remove,
      sv_rmdir = demo_rmdir,
      sv_mkdir = demo_mkdir,
      sv_put = demo_put,
      lf_resolve = (\<lambda>l p. p),
      lf_exists = (\<lambda>l p. p \<in> set l),
      lf_is_file = (\<lambda>l p. p \<in> set l),
      lf_write_csv = (\<lambda>l p rows. (None, l @ [p])),
      ctime = digits,
      py_repr = (\<lambda>s. [CHR 0x27] @ s @ [CHR 0x27]),
      recursion_limit = 100\<rparr>"

definition readonly_env :: "((string \<times> sftp_attrs) list, string list) env" where
  \<comment> \<open>the same remote end with its files write-protected\<close>
  "readonly_env =
     demo_env\<lparr>sv_remove := (\<lambda>s p. (Some (Exn PermissionError ''Permission denied''), s)),
               sv_put := (\<lambda>s l lp rp confirm. (Some (Exn PermissionError ''Permission denied''), s))\<rparr>"

definition demo_store :: "(string \<times> sftp_attrs) list" where
  "demo_store =
     [(''/home'', \<lparr>st_mode = 16877, st_mtime = 10\<rparr>),
      (''/home/b.txt'', \<lparr>st_mode = 33188, st_mtime = 20\<rparr>),
      (''/home/c'', \<lparr>st_mode = 16877, st_mtime = 30\<rparr>),
      (''/home/a.txt'', \<lparr>st_mode = 33188, st_mtime = 40\<rparr>),
      (''/home/c/y.txt'', \<lparr>st_mode = 33188, st_mtime = 50\<rparr>),
      (''/home/c/x'', \<lparr>st_mode = 16877, st_mtime = 60\<rparr>),
      (''/home/c/x/k.txt'', \<lparr>st_mode = 33188, st_mtime = 70\<rparr>)]"

definition demo_world :: "string list \<Rightarrow> ((string \<times> sftp_attrs) list, string list) world" where
  "demo_world lines =
     \<lparr>stdin = lines, prompts = [], stdout = [], logged = [], store = demo_store,
      localfs = [''/tmp/report.csv''], requests = [],
      transport_open = False, sftp_open = False\<rparr>"

section \<open>Termination of the loop\<close>

text \<open>No operation reads the input, and a prompt that returns has consumed a line.\<close>

lemma log_msg_stdin [simp]: "stdin (log_msg lv m w) = stdin w"
  by (simp add: log_msg_def)

lemma print_line_stdin [simp]: "stdin (print_line m w) = stdin w"
  by (simp add: print_line_def)

lemma sftp_stat_stdin [simp]: "stdin (snd (sftp_stat env p w)) = stdin w"
  by (simp add: sftp_stat_def)

lemma sftp_listdir_stdin [simp]: "stdin (snd (sftp_listdir env p w)) = stdin w"
  by (simp add: sftp_listdir_def)

lemma command_stdin [simp]: "stdin (snd (command rq ans w)) = stdin w"
  by (simp add: command_def)

lemma sftp_connection_stdin:
  assumes "\<And>w1. stdin (snd (body w1)) = stdin w1"
  shows "stdin (snd (sftp_connection env h p u pw body w)) = stdin w"
proof -
  have "stdin (snd (body (w\<lparr>transport_open := True, sftp_open := True\<rparr>))) = stdin w"
    using assms [of "w\<lparr>transport_open := True, sftp_open := True\<rparr>"] by simp
  then show ?thesis
    by (auto simp: sftp_connection_def Let_def split: option.splits prod.splits)
qed

lemma upload_file_stdin: "stdin (snd (upload_file env lp rd h p u pw w)) = stdin w"
  by (simp add: upload_file_def Let_def sftp_connection_stdin sftp_put_def case_prod_beta
      split: sum.splits)

lemma create_dir_stdin: "stdin (snd (create_dir env rd h p u pw w)) = stdin w"
  by (simp add: create_dir_def Let_def sftp_connection_stdin sftp_mkdir_def case_prod_beta
      split: sum.splits)

lemma delete_stdin: "stdin (snd (delete env rd h p u pw dt w)) = stdin w"
  by (simp add: delete_def Let_def sftp_connection_stdin sftp_remove_def sftp_rmdir_def
      case_prod_beta split: sum.splits)

lemma view_loop_stdin: "stdin (snd (view_loop env rs names out w)) = stdin w"
  by (induction names arbitrary: out w) (simp_all add: case_prod_beta split: sum.splits)

lemma view_contents_stdin: "stdin (snd (view_contents env rd h p u pw w)) = stdin w"
  by (simp add: view_contents_def Let_def sftp_connection_stdin view_loop_stdin
      case_prod_beta split: sum.splits)

lemma output_csv_stdin: "stdin (snd (output_csv env rows path w)) = stdin w"
  by (simp add: output_csv_def case_prod_beta split: option.splits)

lemma walk_entries_stdin_aux:
  assumes "\<And>path prefix w. stdin (snd (walk env d path prefix w)) = stdin w"
  shows "stdin (snd (walk_entries env d path prefix n es w)) = stdin w"
proof (induction es arbitrary: w)
  case Nil
  show ?case by simp
next
  case (Cons e es)
  obtain idx name where e: "e = (idx, name)" by (cases e)
  show ?case
    unfolding e by (simp add: case_prod_beta Let_def assms Cons.IH split: sum.splits)
qed

lemma walk_stdin: "stdin (snd (walk env d path prefix w)) = stdin w"
proof (induction d arbitrary: path prefix w)
  case 0
  show ?case by simp
next
  case (Suc d)
  show ?case
    by (simp add: case_prod_beta walk_entries_stdin_aux [OF Suc.IH] split: sum.splits)
qed

lemma stfp_formatter_stdin: "stdin (snd (stfp_formatter env h p u pw rd w)) = stdin w"
  by (simp add: stfp_formatter_def Let_def sftp_connection_stdin walk_stdin case_prod_beta)



lemma py_input_stdin: "length (stdin (snd (py_input p w))) \<le> length (stdin w)"
  by (simp add: py_input_def split: list.splits)

lemma py_input_consumes:
  "fst (py_input p w) = Inr l \<Longrightarrow> length (stdin (snd (py_input p w))) < length (stdin w)"
  by (simp add: py_input_def split: list.splits)

lemma ask_stdin: "length (stdin (snd (ask p w))) \<le> length (stdin w)"
  using py_input_stdin [of p w]
  by (simp add: ask_def case_prod_beta Let_def split: sum.splits)

lemma ask_consumes:
  "fst (ask p w) = Inr a \<Longrightarrow> length (stdin (snd (ask p w))) < length (stdin w)"
  using py_input_consumes [of p w]
  by (auto simp: ask_def case_prod_beta Let_def split: sum.splits if_splits)

lemma exit_on_error_snd [simp]: "stdin (snd (exit_on_error what rw)) = stdin (snd rw)"
  by (simp add: exit_on_error_def case_prod_beta split: sum.splits)

lemma fold_print_stdin [simp]:
  "stdin (fold (\<lambda>(name, mtime). print_line (f name mtime)) files w) = stdin w"
  by (induction files arbitrary: w) (simp_all add: case_prod_beta)

lemma print_listing_stdin [simp]: "stdin (print_listing files w) = stdin w"
  by (simp add: print_listing_def Let_def)

lemma read_credentials_stdin:
  "length (stdin (snd (read_credentials w))) \<le> length (stdin w)"
proof -
  note le_trans [trans]
  have a: "length (stdin (snd (ask p2 (snd (ask p1 w))))) \<le> length (stdin w)" for p1 p2
    using ask_stdin [of p2 "snd (ask p1 w)"] ask_stdin [of p1 w] by linarith
  have b: "length (stdin (snd (ask p3 (snd (ask p2 (snd (ask p1 w))))))) \<le> length (stdin w)"
    for p1 p2 p3
    using ask_stdin [of p3 "snd (ask p2 (snd (ask p1 w)))"] a [of p2 p1] by linarith
  show ?thesis
    by (simp add: read_credentials_def case_prod_beta ask_stdin a b split: sum.splits)
qed

lemma dispatch_stdin: "length (stdin (snd (dispatch env c choice w))) \<le> length (stdin w)"
proof -
  have a1: "length (stdin (snd (ask p1 w))) \<le> length (stdin w)" for p1
    by (rule ask_stdin)
  have i1: "length (stdin (snd (py_input p1 w))) \<le> length (stdin w)" for p1
    by (rule py_input_stdin)
  have a2: "length (stdin (snd (ask p2 (snd (ask p1 w))))) \<le> length (stdin w)" for p1 p2
    using ask_stdin [of p2 "snd (ask p1 w)"] ask_stdin [of p1 w] by linarith
  have i2: "length (stdin (snd (ask p2 (snd (py_input p1 w))))) \<le> length (stdin w)" for p1 p2
    using ask_stdin [of p2 "snd (py_input p1 w)"] py_input_stdin [of p1 w] by linarith
  have a3: "length (stdin (snd (ask p3 (snd (view_contents env rd h p u pw (snd (ask p2 (snd (ask p1 w))))))))) \<le> length (stdin w)"
    for p1 p2 p3 rd h p u pw
    using ask_stdin [of p3 "snd (view_contents env rd h p u pw (snd (ask p2 (snd (ask p1 w)))))"]
      a2 [of p2 p1] by (simp add: view_contents_stdin)
  have up: ?thesis if "choice = ''upload''"
    unfolding dispatch_def that
    by (simp add: case_prod_beta a1 a2 upload_file_stdin split: sum.splits)
  have fo: ?thesis if "choice = ''folder''"
    unfolding dispatch_def that
    by (simp add: case_prod_beta a1 create_dir_stdin split: sum.splits)
  have de: ?thesis if "choice = ''delete''"
    unfolding dispatch_def that
    by (simp add: case_prod_beta i1 i2 delete_stdin split: sum.splits)
  have vi: ?thesis if "choice = ''view''"
    unfolding dispatch_def that
    by (simp add: case_prod_beta Let_def a1 a2 a3 view_contents_stdin
        stfp_formatter_stdin output_csv_stdin split: sum.splits)
  have ot: ?thesis
    if "choice \<noteq> ''upload''" "choice \<noteq> ''folder''" "choice \<noteq> ''delete''" "choice \<noteq> ''view''"
    unfolding dispatch_def using that by simp
  show ?thesis using up fo de vi ot by blast
qed

lemma restart_stdin: "length (stdin (snd (restart c w))) \<le> length (stdin w)"
proof -
  have a1: "length (stdin (snd (ask p1 w))) \<le> length (stdin w)" for p1
    by (rule ask_stdin)
  have a2: "length (stdin (snd (ask p2 (snd (ask p1 w))))) \<le> length (stdin w)" for p1 p2
    using ask_stdin [of p2 "snd (ask p1 w)"] ask_stdin [of p1 w] by linarith
  have a3: "length (stdin (snd (read_credentials (log_msg lv m (snd (ask p2 (snd (ask p1 w)))))))) \<le> length (stdin w)"
    for p1 p2 lv m
    using read_credentials_stdin [of "log_msg lv m (snd (ask p2 (snd (ask p1 w))))"] a2 [of p2 p1]
    by simp
  show ?thesis
    by (simp add: restart_def case_prod_beta Let_def a1 a2 a3 split: sum.splits)
qed

lemma loop_body_consumes:
  assumes "loop_body env c w = (Inr (Continue c'), w')"
  shows "length (stdin w') < length (stdin w)"
proof -
  obtain a where a: "fst (ask menu_prompt w) = Inr a"
    using assms by (auto simp: loop_body_def case_prod_beta split: sum.splits)
  let ?w1 = "snd (ask menu_prompt w)"
  let ?w2 = "snd (dispatch env c (lower (strip a)) ?w1)"
  have "w' = snd (restart c ?w2)"
    using assms a by (auto simp: loop_body_def case_prod_beta split: sum.splits)
  moreover have "length (stdin (snd (restart c ?w2))) \<le> length (stdin ?w2)"
    by (rule restart_stdin)
  moreover have "length (stdin ?w2) \<le> length (stdin ?w1)"
    by (rule dispatch_stdin)
  moreover have "length (stdin ?w1) < length (stdin w)"
    using a by (rule ask_consumes)
  ultimately show ?thesis by simp
qed

termination main_loop
  by (relation "measure (\<lambda>(env, c, w). length (stdin w))")
     (auto dest: loop_body_consumes [OF sym])

section \<open>The session scope, case by case\<close>

lemma sftp_connection_ok:
  assumes "session_ok env h p u pw"
  shows "sftp_connection env h p u pw body w =
         (fst (body (w\<lparr>transport_open := True, sftp_open := True\<rparr>)),
          (snd (body (w\<lparr>transport_open := True, sftp_open := True\<rparr>)))
            \<lparr>sftp_open := False, transport_open := False\<rparr>)"
  using assms by (simp add: sftp_connection_def session_ok_def case_prod_beta Let_def)

lemma sftp_connection_failed:
  assumes "\<not> session_ok env h p u pw"
  shows "\<exists>e. fst (sftp_connection env h p u pw body w) = Inl e"
    and "snd (sftp_connection env h p u pw body w) = w
         \<or> snd (sftp_connection env h p u pw body w) = w\<lparr>transport_open := True\<rparr>"
  using assms by (auto simp: sftp_connection_def session_ok_def Let_def split: option.splits)

lemma sftp_connection_failed_frame:
  assumes "\<not> session_ok env h p u pw"
  shows "store (snd (sftp_connection env h p u pw body w)) = store w"
    and "requests (snd (sftp_connection env h p u pw body w)) = requests w"
    and "stdout (snd (sftp_connection env h p u pw body w)) = stdout w"
    and "logged (snd (sftp_connection env h p u pw body w)) = logged w"
  using sftp_connection_failed(2) [OF assms, of body w] by auto

lemma demo_session_ok: "session_ok demo_env ''sftp.example.org'' 22 u ''secret''"
  by (simp add: session_ok_def demo_env_def)

lemma ap_demo:
  "as_posix (posix_path ''/home/a.txt'') = ''/home/a.txt''"
  "as_posix (posix_path ''/home/c'') = ''/home/c''"
  "as_posix (posix_path ''/home/gone.txt'') = ''/home/gone.txt''"
  by code_simp+

lemma demo_stats:
  "sv_stat demo_env demo_store ''/home/gone.txt'' = Inl no_such_file"
  "sv_stat demo_env demo_store ''/home/c''
     = Inr \<lparr>st_mode = 16877, st_mtime = 30\<rparr>"
  "sv_stat demo_env demo_store ''/home/a.txt''
     = Inr \<lparr>st_mode = 33188, st_mtime = 40\<rparr>"
  by (simp_all add: demo_env_def demo_stat_def demo_store_def)

lemma demo_modes: "S_ISDIR 16877" "\<not> S_ISDIR 33188"
  by (simp_all add: S_ISDIR_def)

lemma demo_remove_a:
  "sv_remove demo_env demo_store ''/home/a.txt''
   = (None, [(''/home'', \<lparr>st_mode = 16877, st_mtime = 10\<rparr>),
             (''/home/b.txt'', \<lparr>st_mode = 33188, st_mtime = 20\<rparr>),
             (''/home/c'', \<lparr>st_mode = 16877, st_mtime = 30\<rparr>),
             (''/home/c/y.txt'', \<lparr>st_mode = 33188, st_mtime = 50\<rparr>),
             (''/home/c/x'', \<lparr>st_mode = 16877, st_mtime = 60\<rparr>),
             (''/home/c/x/k.txt'', \<lparr>st_mode = 33188, st_mtime = 70\<rparr>)])"
  by (simp add: demo_env_def demo_remove_def demo_store_def demo_modes)

section \<open>Paths: joining a plain name\<close>

lemma split_slash_no_slash: "CHR ''/'' \<notin> set s \<Longrightarrow> split_slash s = [s]"
  by (induction s) auto

lemma split_slash_nonempty: "split_slash s \<noteq> []"
  by (induction s) (auto split: list.splits)

lemma last_split_slash_no_slash: "CHR ''/'' \<notin> set (last (split_slash s))"
  by (induction s) (auto split: list.splits simp: split_slash_nonempty)

lemma path_name_no_slash: "CHR ''/'' \<notin> set (path_name s)"
proof -
  have "path_name s = last (split_slash s)"
    using split_slash_nonempty [of s]
    by (cases "split_slash s" rule: rev_cases) (simp_all add: path_name_def)
  then show ?thesis by (simp add: last_split_slash_no_slash)
qed

lemma posix_path_plain:
  assumes "CHR ''/'' \<notin> set n" "n \<noteq> []" "n \<noteq> ''.''"
  shows "posix_path n = PurePosixPath [] [n]"
proof -
  have "take 1 n \<noteq> ''/''"
    using assms by (cases n) auto
  then show ?thesis
    using assms by (simp add: posix_path_def splitroot_def split_slash_no_slash)
qed

lemma joinpath_plain:
  assumes "CHR ''/'' \<notin> set n" "n \<noteq> []" "n \<noteq> ''.''"
  shows "joinpath p n = PurePosixPath (root p) (parts p @ [n])"
  by (simp add: joinpath_def posix_path_plain [OF assms])

section \<open>The example remote end, evaluated\<close>

lemma demo_local:
  "lf_resolve demo_env l q = q"
  "lf_exists demo_env l q = (q \<in> set l)"
  "lf_is_file demo_env l q = (q \<in> set l)"
  by (simp_all add: demo_env_def)

lemma ap_demo2:
  "path_name ''/tmp/report.csv'' = ''report.csv''"
  "posix_path ''/home/c/'' = PurePosixPath ''/'' [''home'', ''c'']"
  "joinpath (PurePosixPath ''/'' [''home'', ''c'']) ''report.csv''
   = PurePosixPath ''/'' [''home'', ''c'', ''report.csv'']"
  "as_posix (PurePosixPath ''/'' [''home'', ''c'', ''report.csv'']) = ''/home/c/report.csv''"
  by code_simp+

lemma demo_put_report:
  "fst (sv_put demo_env demo_store [''/tmp/report.csv''] ''/tmp/report.csv''
          ''/home/c/report.csv'' True) = None"
  "map fst (snd (sv_put demo_env demo_store [''/tmp/report.csv''] ''/tmp/report.csv''
          ''/home/c/report.csv'' True))
   = [''/home'', ''/home/b.txt'', ''/home/c'', ''/home/a.txt'', ''/home/c/y.txt'', ''/home/c/x'',
      ''/home/c/x/k.txt'', ''/home/c/report.csv'']"
  by (simp_all add: demo_env_def demo_put_def demo_store_def)

lemma demo_session_bad: "\<not> session_ok demo_env ''sftp.example.org'' 22 u ''wrong''"
  by (simp add: session_ok_def demo_env_def)

section \<open>Listing reads the store and nothing else\<close>

lemma view_loop_store: "store (snd (view_loop env rs names out w)) = store w"
  by (induction names arbitrary: out w)
     (simp_all add: case_prod_beta sftp_stat_def split: sum.splits)

lemma view_loop_fst_store:
  "store w2 = store w1 \<Longrightarrow>
   fst (view_loop env rs names out w2) = fst (view_loop env rs names out w1)"
proof (induction names arbitrary: out w1 w2)
  case Nil
  show ?case by simp
next
  case (Cons name names)
  have s: "store (snd (sftp_stat env q w2)) = store (snd (sftp_stat env q w1))" for q
    using Cons.prems by (simp add: sftp_stat_def)
  have f: "fst (sftp_stat env q w2) = fst (sftp_stat env q w1)" for q
    using Cons.prems by (simp add: sftp_stat_def)
  show ?case
    by (simp add: case_prod_beta f Cons.IH [OF s] split: sum.splits)
qed

lemma view_contents_store: "store (snd (view_contents env rd h p u pw w)) = store w"
proof (cases "session_ok env h p u pw")
  case True
  show ?thesis
    by (simp add: view_contents_def Let_def sftp_connection_ok [OF True] case_prod_beta
        view_loop_store sftp_listdir_def split: sum.splits)
next
  case False
  show ?thesis
    by (simp add: view_contents_def Let_def sftp_connection_failed_frame [OF False])
qed

lemma sort_home: "sort [''b.txt'', ''c'', ''a.txt''] = [''a.txt'', ''b.txt'', ''c'']"
  by code_simp

lemma demo_listdir_home: "sv_listdir demo_env demo_store ''/home'' = Inr [''b.txt'', ''c'', ''a.txt'']"
  by (simp add: demo_env_def demo_listdir_def demo_store_def demo_modes is_child_def)

lemma demo_stat_b: "sv_stat demo_env demo_store ''/home/b.txt''
     = Inr \<lparr>st_mode = 33188, st_mtime = 20\<rparr>"
  by (simp add: demo_env_def demo_stat_def demo_store_def)

lemma digits_demo: "digits 40 = ''40''" "digits 20 = ''20''" "digits 30 = ''30''"
  by simp_all

lemma ap_home: "as_posix (posix_path ''/home'') = ''/home''"
  by code_simp

lemma demo_view_home:
  "fst (view_contents demo_env (posix_path ''/home'') ''sftp.example.org'' 22 ''u'' ''secret'' (demo_world [])) = Inr [(''a.txt'', ''40''), (''b.txt'', ''20''), (''c'', ''30'')]"
  by (simp add: view_contents_def Let_def sftp_connection_ok [OF demo_session_ok] ap_home
      sftp_listdir_def sftp_stat_def demo_world_def demo_listdir_home sort_home demo_stats
      demo_stat_b digits_demo del: digits.simps)
     (simp add: demo_env_def)

section \<open>Prompts\<close>

lemma ask_answer:
  assumes "stdin w = a # rest" and "lower (strip a) \<noteq> ''exit''"
  shows "ask prompt w = (Inr (strip a), w\<lparr>stdin := rest, prompts := prompts w @ [prompt]\<rparr>)"
  using assms by (simp add: ask_def py_input_def Let_def)

lemma ask_exit:
  assumes "stdin w = a # rest" and "lower (strip a) = ''exit''"
  shows "fst (ask prompt w) = Inl (SystemExit 0)"
  using assms by (simp add: ask_def py_input_def Let_def)

lemma readonly_session_ok: "session_ok readonly_env ''sftp.example.org'' 22 u ''secret''"
  by (simp add: session_ok_def readonly_env_def demo_env_def)

lemma readonly_facts:
  "lf_resolve readonly_env l q = q"
  "lf_exists readonly_env l q = (q \<in> set l)"
  "lf_is_file readonly_env l q = (q \<in> set l)"
  "sv_put readonly_env s l lp rp c = (Some (Exn PermissionError ''Permission denied''), s)"
  "sv_remove readonly_env s q = (Some (Exn PermissionError ''Permission denied''), s)"
  "sv_stat readonly_env = sv_stat demo_env"
  by (simp_all add: readonly_env_def demo_env_def)

lemma demo_failures:
  "fst (sv_mkdir demo_env demo_store ''/home'') = Some (Exn OSError ''Failure'')"
  "fst (sv_rmdir demo_env demo_store ''/home/c'') = Some (Exn OSError ''Failure'')"
  "sv_listdir demo_env demo_store ''/nope'' = Inl no_such_file"
  by (simp_all add: demo_env_def demo_mkdir_def demo_rmdir_def demo_listdir_def demo_store_def
      demo_modes is_child_def)

lemma ap_demo3:
  "as_posix (posix_path ''/home'') = ''/home''"
  "as_posix (posix_path ''/nope'') = ''/nope''"
  "strip ''/home'' = ''/home''"
  "lower ''/home'' \<noteq> ''exit''"
  by code_simp+

lemma demo_repr: "py_repr demo_env s = [CHR 0x27] @ s @ [CHR 0x27]"
  by (simp add: demo_env_def)

lemmas shell_defs = main_def read_credentials_def ask_def py_input_def loop_body_def dispatch_def
  restart_def exit_on_error_def log_msg_def print_line_def strip_def is_space_def lower_def
  lower_char_def

section \<open>The walk prints the tree of the store\<close>

lemma walk_entries_store_aux:
  assumes "\<And>path prefix w. store (snd (walk env d path prefix w)) = store w"
  shows "store (snd (walk_entries env d path prefix n es w)) = store w"
proof (induction es arbitrary: w)
  case Nil
  show ?case by simp
next
  case (Cons e es)
  obtain idx name where e: "e = (idx, name)" by (cases e)
  show ?case
    unfolding e
    by (simp add: case_prod_beta Let_def assms Cons.IH sftp_stat_def print_line_def
        split: sum.splits)
qed

lemma walk_store: "store (snd (walk env d path prefix w)) = store w"
proof (induction d arbitrary: path prefix w)
  case 0
  show ?case by simp
next
  case (Suc d)
  show ?case
    by (simp add: case_prod_beta walk_entries_store_aux [OF Suc.IH] sftp_listdir_def
        split: sum.splits)
qed

lemma walk_entries_store: "store (snd (walk_entries env d path prefix n es w)) = store w"
  by (rule walk_entries_store_aux) (rule walk_store)

lemma walk_entries_refines:
  assumes IH: "\<And>path prefix w. fst (walk env d path prefix w) = Inr () \<Longrightarrow>
                 stdout (snd (walk env d path prefix w))
                 = stdout w @ tree_lines env (store w) d path prefix"
  shows "fst (walk_entries env d path prefix n es w) = Inr () \<Longrightarrow>
         stdout (snd (walk_entries env d path prefix n es w))
         = stdout w @ concat (map (\<lambda>(idx, name).
                   let full = rstrip_slash path @ ''/'' @ name;
                       is_last = (idx = n - 1);
                       is_dir = is_dir_at env (store w) full
                   in entry_line prefix is_last name is_dir
                      # (if is_dir then tree_lines env (store w) d full (child_prefix prefix is_last)
                         else [])) es)"
proof (induction es arbitrary: w)
  case Nil
  show ?case by simp
next
  case (Cons e es)
  obtain idx name where e: "e = (idx, name)" by (cases e)
  note prems = Cons.prems [unfolded e]
  let ?full = "rstrip_slash path @ CHR ''/'' # name"
  let ?w1 = "w\<lparr>requests := requests w @ [Stat ?full]\<rparr>"
  obtain attrs where st: "sv_stat env (store w) ?full = Inr attrs"
    using prems
    by (cases "sv_stat env (store w) ?full") (simp_all add: sftp_stat_def)
  let ?last = "idx = n - 1"
  let ?dir = "S_ISDIR (st_mode attrs)"
  let ?w2 = "print_line (entry_line prefix ?last name ?dir) ?w1"
  have dir_at: "is_dir_at env (store w) ?full = ?dir"
    using st by (simp add: is_dir_at_def)
  show ?case
  proof (cases ?dir)
    case False
    have step: "walk_entries env d path prefix n ((idx, name) # es) w
                = walk_entries env d path prefix n es ?w2"
      using False st
      by (simp add: sftp_stat_def Let_def entry_line_def)
    have s2: "store ?w2 = store w"
      by (simp add: print_line_def)
    have "fst (walk_entries env d path prefix n es ?w2) = Inr ()"
      using prems step by simp
    from Cons.IH [OF this, unfolded s2] show ?thesis
      unfolding e step using False
      by (simp add: dir_at Let_def print_line_def)
  next
    case True
    let ?pre = "child_prefix prefix ?last"
    let ?w3 = "snd (walk env d ?full ?pre ?w2)"
    have unf: "walk_entries env d path prefix n ((idx, name) # es) w
               = (case walk env d ?full ?pre ?w2 of
                    (Inl x, w3) \<Rightarrow> (Inl x, w3)
                  | (Inr u, w3) \<Rightarrow> walk_entries env d path prefix n es w3)"
      using True st
      by (simp add: sftp_stat_def Let_def entry_line_def child_prefix_def)
    have ok: "fst (walk env d ?full ?pre ?w2) = Inr ()"
      using prems unfolding unf
      by (cases "fst (walk env d ?full ?pre ?w2)") (simp_all add: case_prod_beta)
    then have step: "walk_entries env d path prefix n ((idx, name) # es) w
                     = walk_entries env d path prefix n es ?w3"
      unfolding unf by (simp add: case_prod_beta)
    have s3: "store ?w3 = store w"
      by (simp add: walk_store print_line_def)
    have out3: "stdout ?w3 = stdout ?w2 @ tree_lines env (store w) d ?full ?pre"
      using IH [OF ok] by (simp add: print_line_def)
    have "fst (walk_entries env d path prefix n es ?w3) = Inr ()"
      using prems step by simp
    from Cons.IH [OF this, unfolded s3] out3 show ?thesis
      unfolding e step using True
      by (simp add: dir_at Let_def print_line_def)
  qed
qed

lemma walk_refines:
  "fst (walk env d path prefix w) = Inr () \<Longrightarrow>
   stdout (snd (walk env d path prefix w)) = stdout w @ tree_lines env (store w) d path prefix"
proof (induction d arbitrary: path prefix w)
  case 0
  then show ?case by simp
next
  case (Suc d)
  let ?w1 = "w\<lparr>requests := requests w @ [Listdir path]\<rparr>"
  obtain names where ls: "sv_listdir env (store w) path = Inr names"
    using Suc.prems
    by (cases "sv_listdir env (store w) path") (simp_all add: sftp_listdir_def)
  have step: "walk env (Suc d) path prefix w
              = walk_entries env d path prefix (length names) (enumerate 0 (sort names)) ?w1"
    by (simp add: sftp_listdir_def ls)
  have "fst (walk_entries env d path prefix (length names) (enumerate 0 (sort names)) ?w1) = Inr ()"
    using Suc.prems step by simp
  note r = walk_entries_refines [OF Suc.IH this]
  have w1: "store ?w1 = store w" "stdout ?w1 = stdout w"
    by simp_all
  have l: "length (sort names) = length names"
    by simp
  show ?case
    unfolding step using r
    by (simp only: tree_lines.simps listing_def ls sum.case Let_def l w1)
qed

lemma tree_lines_prefix:
  "l \<in> set (tree_lines env s d path prefix) \<Longrightarrow> take (length prefix) l = prefix"
proof (induction d arbitrary: path prefix l)
  case 0
  then show ?case by simp
next
  case (Suc d)
  then obtain idx name where
    l: "l = entry_line prefix (idx = length (sort (listing env s path)) - 1) name
              (is_dir_at env s (rstrip_slash path @ ''/'' @ name))
        \<or> l \<in> set (tree_lines env s d (rstrip_slash path @ ''/'' @ name)
                      (child_prefix prefix (idx = length (sort (listing env s path)) - 1)))"
    by (auto simp: Let_def split: if_splits)
  then show ?case
  proof
    assume "l = entry_line prefix (idx = length (sort (listing env s path)) - 1) name
              (is_dir_at env s (rstrip_slash path @ ''/'' @ name))"
    then show ?thesis by (simp add: entry_line_def)
  next
    assume "l \<in> set (tree_lines env s d (rstrip_slash path @ ''/'' @ name)
                      (child_prefix prefix (idx = length (sort (listing env s path)) - 1)))"
    from Suc.IH [OF this]
    have "take (length (child_prefix prefix (idx = length (sort (listing env s path)) - 1))) l
          = child_prefix prefix (idx = length (sort (listing env s path)) - 1)" .
    then have "take (length prefix) (take (length (child_prefix prefix
                 (idx = length (sort (listing env s path)) - 1))) l) = prefix"
      by (simp add: child_prefix_def)
    then show ?thesis
      by (simp add: child_prefix_def min_def split: if_splits)
  qed
qed

lemma view_loop_rows:
  "fst (view_loop env rs names out w) = Inr rows \<Longrightarrow>
   rows = out @ map (\<lambda>name. (name, mtime_at env (store w) (rs @ ''/'' @ name))) names"
proof (induction names arbitrary: out w)
  case Nil
  then show ?case by auto
next
  case (Cons name names)
  let ?full = "rs @ CHR ''/'' # name"
  let ?w1 = "w\<lparr>requests := requests w @ [Stat ?full]\<rparr>"
  obtain attrs where st: "sv_stat env (store w) ?full = Inr attrs"
    using Cons.prems
    by (cases "sv_stat env (store w) ?full") (simp_all add: sftp_stat_def)
  have s1: "store ?w1 = store w"
    by simp
  have "fst (view_loop env rs names (out @ [(name, ctime env (st_mtime attrs))]) ?w1) = Inr rows"
    using Cons.prems st by (simp add: sftp_stat_def)
  from Cons.IH [OF this, unfolded s1] st show ?case
    by (simp add: mtime_at_def)
qed

lemma view_contents_rows:
  assumes "fst (view_contents env rd h p u pw w) = Inr rows"
  shows "rows = map (\<lambda>name. (name, mtime_at env (store w) (as_posix rd @ ''/'' @ name)))
                  (sort (listing env (store w) (as_posix rd)))"
proof -
  have ok: "session_ok env h p u pw"
  proof (rule ccontr)
    assume "\<not> session_ok env h p u pw"
    then have "\<exists>e. fst (view_contents env rd h p u pw w) = Inl e"
      unfolding view_contents_def Let_def by (rule sftp_connection_failed(1))
    with assms show False by auto
  qed
  let ?w1 = "w\<lparr>transport_open := True, sftp_open := True\<rparr>"
  let ?w2 = "?w1\<lparr>requests := requests ?w1 @ [Listdir (as_posix rd)]\<rparr>"
  obtain names where ls: "sv_listdir env (store w) (as_posix rd) = Inr names"
    using assms
    by (cases "sv_listdir env (store w) (as_posix rd)")
       (simp_all add: view_contents_def Let_def sftp_connection_ok [OF ok] sftp_listdir_def)
  have s2: "store ?w2 = store w"
    by simp
  have "fst (view_loop env (as_posix rd) (sort names) [] ?w2) = Inr rows"
    using assms ls
    by (simp add: view_contents_def Let_def sftp_connection_ok [OF ok] sftp_listdir_def)
  from view_loop_rows [OF this, unfolded s2] show ?thesis
    by (simp add: listing_def ls)
qed

lemma view_loop_names:
  "fst (view_loop env rs names out w) = Inr rows \<Longrightarrow> map fst rows = map fst out @ names"
proof (induction names arbitrary: out w)
  case Nil
  then show ?case by auto
next
  case (Cons name names)
  obtain attrs where st: "sv_stat env (store w) (rs @ ''/'' @ name) = Inr attrs"
    using Cons.prems
    by (cases "sv_stat env (store w) (rs @ ''/'' @ name)") (simp_all add: sftp_stat_def)
  have "fst (view_loop env rs names (out @ [(name, ctime env (st_mtime attrs))])
               (snd (sftp_stat env (rs @ ''/'' @ name) w))) = Inr rows"
    using Cons.prems st by (simp add: sftp_stat_def)
  from Cons.IH [OF this] show ?case by simp
qed

lemma view_contents_names:
  assumes "fst (view_contents env rd h p u pw w) = Inr rows"
  shows "map fst rows = sort (listing env (store w) (as_posix rd))"
proof -
  have ok: "session_ok env h p u pw"
  proof (rule ccontr)
    assume "\<not> session_ok env h p u pw"
    then have "\<exists>e. fst (view_contents env rd h p u pw w) = Inl e"
      unfolding view_contents_def Let_def by (rule sftp_connection_failed(1))
    with assms show False by auto
  qed
  let ?w1 = "w\<lparr>transport_open := True, sftp_open := True\<rparr>"
  obtain names where ls: "sv_listdir env (store w) (as_posix rd) = Inr names"
    using assms
    by (cases "sv_listdir env (store w) (as_posix rd)")
       (simp_all add: view_contents_def Let_def sftp_connection_ok [OF ok] sftp_listdir_def)
  have "fst (view_loop env (as_posix rd) (sort names) []
               (?w1\<lparr>requests := requests ?w1 @ [Listdir (as_posix rd)]\<rparr>)) = Inr rows"
    using assms ls
    by (simp add: view_contents_def Let_def sftp_connection_ok [OF ok] sftp_listdir_def)
  from view_loop_names [OF this] show ?thesis
    by (simp add: listing_def ls)
qed

lemma demo_listdirs:
  "sv_listdir demo_env demo_store ''/home/c'' = Inr [''y.txt'', ''x'']"
  "sv_listdir demo_env demo_store ''/home/c/x'' = Inr [''k.txt'']"
  by (simp_all add: demo_env_def demo_listdir_def demo_store_def demo_modes is_child_def)

lemma demo_stats2:
  "sv_stat demo_env demo_store ''/home/c/y.txt'' = Inr \<lparr>st_mode = 33188, st_mtime = 50\<rparr>"
  "sv_stat demo_env demo_store ''/home/c/x'' = Inr \<lparr>st_mode = 16877, st_mtime = 60\<rparr>"
  "sv_stat demo_env demo_store ''/home/c/x/k.txt'' = Inr \<lparr>st_mode = 33188, st_mtime = 70\<rparr>"
  by (simp_all add: demo_env_def demo_stat_def demo_store_def)

lemma sort_demo: "sort [''y.txt'', ''x''] = [''x'', ''y.txt'']" "sort [''k.txt''] = [''k.txt'']"
  by code_simp+

lemma rstrip_demo:
  "rstrip_slash ''/home'' = ''/home''" "rstrip_slash ''/home/c'' = ''/home/c''"
  "rstrip_slash ''/home/c/x'' = ''/home/c/x''"
  by (simp_all add: rstrip_slash_def)

lemma demo_walk_home:
  assumes "store w = demo_store"
  shows "walk demo_env (Suc (Suc (Suc 0))) ''/home'' prefix w
   = (Inr (),
      w\<lparr>requests := requests w @
                    [Listdir ''/home'', Stat ''/home/a.txt'', Stat ''/home/b.txt'',
                     Stat ''/home/c'', Listdir ''/home/c'', Stat ''/home/c/x'',
                     Listdir ''/home/c/x'', Stat ''/home/c/x/k.txt'', Stat ''/home/c/y.txt''],
        stdout := stdout w @
                  [prefix @ mid_branch @ ''a.txt'', prefix @ mid_branch @ ''b.txt'',
                   prefix @ last_branch @ ''c/'',
                   prefix @ last_extension @ mid_branch @ ''x/'',
                   prefix @ last_extension @ mid_extension @ last_branch @ ''k.txt'',
                   prefix @ last_extension @ last_branch @ ''y.txt'']\<rparr>)"
  using assms
  by (simp add: sftp_listdir_def sftp_stat_def print_line_def demo_listdir_home
      demo_listdirs demo_stats demo_stat_b demo_stats2 sort_home sort_demo rstrip_demo demo_modes
      Let_def enumerate_simps)

lemma demo_tree_home:
  "tree_lines demo_env demo_store (Suc (Suc (Suc 0))) ''/home'' []
   = [mid_branch @ ''a.txt'', mid_branch @ ''b.txt'', last_branch @ ''c/'',
      last_extension @ mid_branch @ ''x/'',
      last_extension @ mid_extension @ last_branch @ ''k.txt'',
      last_extension @ last_branch @ ''y.txt'']"
  by (simp add: listing_def is_dir_at_def entry_line_def child_prefix_def demo_listdir_home
      demo_listdirs demo_stats demo_stat_b demo_stats2 sort_home sort_demo rstrip_demo demo_modes
      Let_def enumerate_simps)

lemma stfp_formatter_refines:
  assumes "fst (stfp_formatter env h p u pw rd w) = Inr ()"
  shows "stdout (snd (stfp_formatter env h p u pw rd w))
         = stdout w @ (rstrip_slash (as_posix rd) @ ''/'')
           # tree_lines env (store w) (recursion_limit env) (rstrip_slash (as_posix rd)) []"
proof -
  have ok: "session_ok env h p u pw"
  proof (rule ccontr)
    assume "\<not> session_ok env h p u pw"
    then have "\<exists>e. fst (stfp_formatter env h p u pw rd w) = Inl e"
      unfolding stfp_formatter_def Let_def by (rule sftp_connection_failed(1))
    with assms show False by auto
  qed
  let ?root = "rstrip_slash (as_posix rd)"
  let ?w1 = "print_line (?root @ ''/'') (w\<lparr>transport_open := True, sftp_open := True\<rparr>)"
  have f: "fst (walk env (recursion_limit env) ?root [] ?w1) = Inr ()"
    using assms
    by (simp add: stfp_formatter_def Let_def sftp_connection_ok [OF ok] case_prod_beta)
  from walk_refines [OF f]
  show ?thesis
    by (simp add: stfp_formatter_def Let_def sftp_connection_ok [OF ok] case_prod_beta
        print_line_def)
qed

lemma walk_entries_mono_aux:
  assumes IH: "\<And>path prefix w. fst (walk env d path prefix w) = Inr () \<Longrightarrow>
                 walk env (d + k) path prefix w = walk env d path prefix w"
  shows "fst (walk_entries env d path prefix n es w) = Inr () \<Longrightarrow>
         walk_entries env (d + k) path prefix n es w = walk_entries env d path prefix n es w"
proof (induction es arbitrary: w)
  case Nil
  show ?case by simp
next
  case (Cons e es)
  obtain idx name where e: "e = (idx, name)" by (cases e)
  note prems = Cons.prems [unfolded e]
  let ?full = "rstrip_slash path @ CHR ''/'' # name"
  let ?w1 = "w\<lparr>requests := requests w @ [Stat ?full]\<rparr>"
  obtain attrs where st: "sv_stat env (store w) ?full = Inr attrs"
    using prems
    by (cases "sv_stat env (store w) ?full") (simp_all add: sftp_stat_def)
  let ?last = "idx = n - 1"
  let ?dir = "S_ISDIR (st_mode attrs)"
  let ?w2 = "print_line (entry_line prefix ?last name ?dir) ?w1"
  show ?case
  proof (cases ?dir)
    case False
    have step: "walk_entries env d' path prefix n ((idx, name) # es) w
                = walk_entries env d' path prefix n es ?w2" for d'
      using False st
      by (simp add: sftp_stat_def Let_def entry_line_def)
    have "fst (walk_entries env d path prefix n es ?w2) = Inr ()"
      using prems step by simp
    from Cons.IH [OF this] show ?thesis
      unfolding e step .
  next
    case True
    let ?pre = "child_prefix prefix ?last"
    have unf: "walk_entries env d' path prefix n ((idx, name) # es) w
               = (case walk env d' ?full ?pre ?w2 of
                    (Inl x, w3) \<Rightarrow> (Inl x, w3)
                  | (Inr u, w3) \<Rightarrow> walk_entries env d' path prefix n es w3)" for d'
      using True st
      by (simp add: sftp_stat_def Let_def entry_line_def child_prefix_def)
    have ok: "fst (walk env d ?full ?pre ?w2) = Inr ()"
      using prems unfolding unf
      by (cases "fst (walk env d ?full ?pre ?w2)") (simp_all add: case_prod_beta)
    have same: "walk env (d + k) ?full ?pre ?w2 = walk env d ?full ?pre ?w2"
      by (rule IH [OF ok])
    let ?w3 = "snd (walk env d ?full ?pre ?w2)"
    have "fst (walk_entries env d path prefix n es ?w3) = Inr ()"
      using prems ok unfolding unf by (simp add: case_prod_beta)
    from Cons.IH [OF this] show ?thesis
      unfolding e unf same using ok by (simp add: case_prod_beta)
  qed
qed

lemma walk_mono:
  "fst (walk env d path prefix w) = Inr () \<Longrightarrow>
   walk env (d + k) path prefix w = walk env d path prefix w"
proof (induction d arbitrary: path prefix w)
  case 0
  then show ?case by simp
next
  case (Suc d)
  obtain names where ls: "sv_listdir env (store w) path = Inr names"
    using Suc.prems
    by (cases "sv_listdir env (store w) path") (simp_all add: sftp_listdir_def)
  let ?w1 = "w\<lparr>requests := requests w @ [Listdir path]\<rparr>"
  have step: "walk env (Suc d') path prefix w
              = walk_entries env d' path prefix (length names) (enumerate 0 (sort names)) ?w1"
    for d'
    by (simp add: sftp_listdir_def ls)
  have "fst (walk_entries env d path prefix (length names) (enumerate 0 (sort names)) ?w1) = Inr ()"
    using Suc.prems step by simp
  from walk_entries_mono_aux [OF Suc.IH this]
  show ?case
    using step [of "d + k"] step [of d] by simp
qed

lemma demo_limit: "recursion_limit demo_env = Suc (Suc (Suc 0)) + 97"
  by (simp add: demo_env_def)

lemma ap_home_slash: "rstrip_slash (as_posix (posix_path ''/home/'')) = ''/home''"
  by code_simp

lemma demo_formatter_home:
  "stfp_formatter demo_env ''sftp.example.org'' 22 ''u'' ''secret'' (posix_path ''/home/'')
     (demo_world [])
   = (Inr (),
      (demo_world [])
        \<lparr>requests := [Listdir ''/home'', Stat ''/home/a.txt'', Stat ''/home/b.txt'',
                      Stat ''/home/c'', Listdir ''/home/c'', Stat ''/home/c/x'',
                      Listdir ''/home/c/x'', Stat ''/home/c/x/k.txt'', Stat ''/home/c/y.txt''],
         stdout := [''/home/'', mid_branch @ ''a.txt'', mid_branch @ ''b.txt'',
                    last_branch @ ''c/'', last_extension @ mid_branch @ ''x/'',
                    last_extension @ mid_extension @ last_branch @ ''k.txt'',
                    last_extension @ last_branch @ ''y.txt'']\<rparr>)"
proof -
  let ?w1 = "print_line ''/home/''
               ((demo_world [])\<lparr>transport_open := True, sftp_open := True\<rparr>)"
  have s: "store ?w1 = demo_store"
    by (simp add: print_line_def demo_world_def)
  note run = demo_walk_home [OF s, of "[]"]
  have "fst (walk demo_env (Suc (Suc (Suc 0))) ''/home'' [] ?w1) = Inr ()"
    by (simp only: run fst_conv)
  from walk_mono [OF this, of 97]
  have deep: "walk demo_env (recursion_limit demo_env) ''/home'' [] ?w1
        = walk demo_env (Suc (Suc (Suc 0))) ''/home'' [] ?w1"
    by (simp only: demo_limit)
  have "stfp_formatter demo_env ''sftp.example.org'' 22 ''u'' ''secret'' (posix_path ''/home/'')
          (demo_world [])
        = (fst (walk demo_env (recursion_limit demo_env) ''/home'' [] ?w1),
           (snd (walk demo_env (recursion_limit demo_env) ''/home'' [] ?w1))
             \<lparr>sftp_open := False, transport_open := False\<rparr>)"
    by (simp add: stfp_formatter_def Let_def sftp_connection_ok [OF demo_session_ok]
        ap_home_slash case_prod_beta del: walk.simps)
  then show ?thesis
    unfolding deep run by (simp add: print_line_def demo_world_def)
qed

section \<open>Deleting\<close>

text \<open>
  C4. With the session established, \<open>delete\<close> with kind \<open>file\<close> first sends the stat
  request for the target, whatever the path. When the remote end answers the stat with
  an \<open>IOError\<close> (its answer for an absent target) the operation fails with
  \<open>FileNotFoundError\<close>; when the attributes say directory it fails with
  \<open>IsADirectoryError\<close>; in both cases the stat is the only request sent and the store
  is unchanged. When the target is there and is not a directory, the remove request
  follows the stat, the store is the one the remote end leaves, and the operation fails
  exactly when the removal does.
\<close>

theorem delete_file_contract:
  assumes "session_ok env h p u pw"
  shows "let rs = as_posix rd;
             r = fst (delete env rd h p u pw ''file'' w);
             w' = snd (delete env rd h p u pw ''file'' w)
         in take (Suc (length (requests w))) (requests w') = requests w @ [Stat rs]
          \<and> (\<forall>e. sv_stat env (store w) rs = Inl e \<and> is_IOError (cls e) \<longrightarrow>
                 r = Inl (Exn FileNotFoundError (rs @ '' not found!''))
               \<and> requests w' = requests w @ [Stat rs] \<and> store w' = store w)
          \<and> (\<forall>a. sv_stat env (store w) rs = Inr a \<and> S_ISDIR (st_mode a) \<longrightarrow>
                 r = Inl (Exn IsADirectoryError (rs @ '' is a directory!''))
               \<and> requests w' = requests w @ [Stat rs] \<and> store w' = store w)
          \<and> (\<forall>a. sv_stat env (store w) rs = Inr a \<and> \<not> S_ISDIR (st_mode a) \<longrightarrow>
                 requests w' = requests w @ [Stat rs, Remove rs]
               \<and> store w' = snd (sv_remove env (store w) rs)
               \<and> r = (case fst (sv_remove env (store w) rs) of Some e \<Rightarrow> Inl e | None \<Rightarrow> Inr ()))"
  by (auto simp: delete_def Let_def sftp_connection_ok [OF assms] sftp_stat_def sftp_remove_def
      command_def log_msg_def split: sum.splits option.splits)

theorem delete_file_contract_witness:
  "session_ok demo_env ''sftp.example.org'' 22 ''u'' ''secret''
   \<and> fst (delete demo_env (posix_path ''/home/gone.txt'') ''sftp.example.org'' 22 ''u''
             ''secret'' ''file'' (demo_world []))
       = Inl (Exn FileNotFoundError ''/home/gone.txt not found!'')
   \<and> requests (snd (delete demo_env (posix_path ''/home/gone.txt'') ''sftp.example.org'' 22
                       ''u'' ''secret'' ''file'' (demo_world []))) = [Stat ''/home/gone.txt'']
   \<and> store (snd (delete demo_env (posix_path ''/home/gone.txt'') ''sftp.example.org'' 22
                    ''u'' ''secret'' ''file'' (demo_world []))) = demo_store
   \<and> fst (delete demo_env (posix_path ''/home/c'') ''sftp.example.org'' 22 ''u''
             ''secret'' ''file'' (demo_world []))
       = Inl (Exn IsADirectoryError ''/home/c is a directory!'')
   \<and> requests (snd (delete demo_env (posix_path ''/home/c'') ''sftp.example.org'' 22
                       ''u'' ''secret'' ''file'' (demo_world []))) = [Stat ''/home/c'']
   \<and> store (snd (delete demo_env (posix_path ''/home/c'') ''sftp.example.org'' 22
                    ''u'' ''secret'' ''file'' (demo_world []))) = demo_store
   \<and> fst (delete demo_env (posix_path ''/home/a.txt'') ''sftp.example.org'' 22 ''u''
             ''secret'' ''file'' (demo_world [])) = Inr ()
   \<and> requests (snd (delete demo_env (posix_path ''/home/a.txt'') ''sftp.example.org'' 22
                       ''u'' ''secret'' ''file'' (demo_world [])))
       = [Stat ''/home/a.txt'', Remove ''/home/a.txt'']
   \<and> map fst (store (snd (delete demo_env (posix_path ''/home/a.txt'') ''sftp.example.org''
                             22 ''u'' ''secret'' ''file'' (demo_world []))))
       = [''/home'', ''/home/b.txt'', ''/home/c'', ''/home/c/y.txt'', ''/home/c/x'',
          ''/home/c/x/k.txt'']"
proof -
  have ok: "session_ok demo_env ''sftp.example.org'' 22 ''u'' ''secret''"
    by (rule demo_session_ok)
  have io: "is_IOError (cls no_such_file)"
    by (simp add: no_such_file_def)
  have w0: "requests (demo_world []) = []" "store (demo_world []) = demo_store"
    by (simp_all add: demo_world_def)
  have gone: "fst (delete demo_env (posix_path ''/home/gone.txt'') ''sftp.example.org'' 22 ''u''
             ''secret'' ''file'' (demo_world []))
       = Inl (Exn FileNotFoundError ''/home/gone.txt not found!'')
   \<and> requests (snd (delete demo_env (posix_path ''/home/gone.txt'') ''sftp.example.org'' 22
                       ''u'' ''secret'' ''file'' (demo_world []))) = [Stat ''/home/gone.txt'']
   \<and> store (snd (delete demo_env (posix_path ''/home/gone.txt'') ''sftp.example.org'' 22
                    ''u'' ''secret'' ''file'' (demo_world []))) = demo_store"
    using delete_file_contract [OF ok, of "posix_path ''/home/gone.txt''" "demo_world []"] io
    by (simp add: Let_def ap_demo demo_stats w0)
  have dir: "fst (delete demo_env (posix_path ''/home/c'') ''sftp.example.org'' 22 ''u''
             ''secret'' ''file'' (demo_world []))
       = Inl (Exn IsADirectoryError ''/home/c is a directory!'')
   \<and> requests (snd (delete demo_env (posix_path ''/home/c'') ''sftp.example.org'' 22
                       ''u'' ''secret'' ''file'' (demo_world []))) = [Stat ''/home/c'']
   \<and> store (snd (delete demo_env (posix_path ''/home/c'') ''sftp.example.org'' 22
                    ''u'' ''secret'' ''file'' (demo_world []))) = demo_store"
    using delete_file_contract [OF ok, of "posix_path ''/home/c''" "demo_world []"]
    by (simp add: Let_def ap_demo demo_stats w0 demo_modes)
  have reg: "fst (delete demo_env (posix_path ''/home/a.txt'') ''sftp.example.org'' 22 ''u''
             ''secret'' ''file'' (demo_world [])) = Inr ()
   \<and> requests (snd (delete demo_env (posix_path ''/home/a.txt'') ''sftp.example.org'' 22
                       ''u'' ''secret'' ''file'' (demo_world [])))
       = [Stat ''/home/a.txt'', Remove ''/home/a.txt'']
   \<and> map fst (store (snd (delete demo_env (posix_path ''/home/a.txt'') ''sftp.example.org''
                             22 ''u'' ''secret'' ''file'' (demo_world []))))
       = [''/home'', ''/home/b.txt'', ''/home/c'', ''/home/c/y.txt'', ''/home/c/x'',
          ''/home/c/x/k.txt'']"
    using delete_file_contract [OF ok, of "posix_path ''/home/a.txt''" "demo_world []"]
    by (simp add: Let_def ap_demo demo_stats w0 demo_modes demo_remove_a)
  from ok gone dir reg show ?thesis by blast
qed

text \<open>
  C10. For every \<open>deletion_type\<close> other than exactly \<open>file\<close> and exactly \<open>folder\<close> (so
  also for \<open>File\<close> and \<open>Folder\<close>, as the prompt words them), \<open>delete\<close> sends no request
  at all, so neither \<open>remove\<close> nor \<open>rmdir\<close>, leaves the remote store as it was and logs
  nothing; once the session is established (the operation's precondition in the
  specification, which passes it a session) it raises no error and returns normally.
\<close>

theorem delete_other_kind_noop:
  assumes "deletion_type \<noteq> ''file''" and "deletion_type \<noteq> ''folder''"
  shows "requests (snd (delete env remote_dir h p u pw deletion_type w)) = requests w
       \<and> store (snd (delete env remote_dir h p u pw deletion_type w)) = store w
       \<and> logged (snd (delete env remote_dir h p u pw deletion_type w)) = logged w
       \<and> (session_ok env h p u pw \<longrightarrow>
            fst (delete env remote_dir h p u pw deletion_type w) = Inr ())"
proof (cases "session_ok env h p u pw")
  case True
  show ?thesis
    using assms by (simp add: delete_def Let_def sftp_connection_ok [OF True])
next
  case False
  have "delete env remote_dir h p u pw deletion_type w
        = sftp_connection env h p u pw (\<lambda>w1. (Inr (), w1)) w"
    using assms by (simp add: delete_def Let_def)
  then show ?thesis
    using sftp_connection_failed(2) [OF False, of "\<lambda>w1. (Inr (), w1)" w] False by auto
qed

theorem delete_other_kind_noop_witness:
  "''File'' \<noteq> ''file'' \<and> ''File'' \<noteq> ''folder''
   \<and> session_ok demo_env ''sftp.example.org'' 22 ''u'' ''secret''
   \<and> requests (snd (delete demo_env (posix_path ''/home/a.txt'') ''sftp.example.org'' 22
                       ''u'' ''secret'' ''File'' (demo_world []))) = []
   \<and> store (snd (delete demo_env (posix_path ''/home/a.txt'') ''sftp.example.org'' 22
                    ''u'' ''secret'' ''File'' (demo_world []))) = demo_store
   \<and> fst (delete demo_env (posix_path ''/home/a.txt'') ''sftp.example.org'' 22
             ''u'' ''secret'' ''File'' (demo_world [])) = Inr ()"
proof -
  have n1: "''File'' \<noteq> ''file''" and n2: "''File'' \<noteq> ''folder''" by simp_all
  show ?thesis
    using delete_other_kind_noop [OF n1 n2, of demo_env "posix_path ''/home/a.txt''"
        "''sftp.example.org''" 22 "''u''" "''secret''" "demo_world []"]
      demo_session_ok [of "''u''"]
    by (simp add: demo_world_def)
qed

section \<open>Uploading\<close>

text \<open>
  C5. For every local path that resolves to an existing regular file, \<open>upload_file\<close>
  sends, once the session is established, exactly one request: the transfer of the
  resolved local file to \<open>remote_dir\<close> joined with the file's base name, with
  confirmation switched on; the store afterwards is the one this transfer leaves, and the
  operation fails exactly when the transfer does. Without a session nothing is sent and
  the store is unchanged. The base name of a resolved regular file is a plain component
  (not empty, not a dot), and joining it appends it as it is to the components of
  \<open>remote_dir\<close>.
\<close>

theorem upload_file_target:
  assumes "lf_exists env (localfs w) (lf_resolve env (localfs w) local_path)"
      and "lf_is_file env (localfs w) (lf_resolve env (localfs w) local_path)"
  shows "let src = lf_resolve env (localfs w) local_path;
             target = as_posix (joinpath remote_dir (path_name src));
             r = fst (upload_file env local_path remote_dir h p u pw w);
             w' = snd (upload_file env local_path remote_dir h p u pw w)
         in (session_ok env h p u pw \<longrightarrow>
               requests w' = requests w @ [Put src target True]
             \<and> store w' = snd (sv_put env (store w) (localfs w) src target True)
             \<and> r = (case fst (sv_put env (store w) (localfs w) src target True) of
                      Some e \<Rightarrow> Inl e | None \<Rightarrow> Inr ()))
          \<and> (\<not> session_ok env h p u pw \<longrightarrow>
               requests w' = requests w \<and> store w' = store w \<and> (\<exists>e. r = Inl e))
          \<and> (path_name src \<noteq> [] \<and> path_name src \<noteq> ''.'' \<longrightarrow>
               joinpath remote_dir (path_name src)
               = PurePosixPath (root remote_dir) (parts remote_dir @ [path_name src]))"
proof -
  let ?src = "lf_resolve env (localfs w) local_path"
  let ?target = "as_posix (joinpath remote_dir (path_name ?src))"
  let ?w0 = "log_msg INFO ''Paths found and valid, starting upload.'' w"
  let ?body = "\<lambda>w1. let w2 = log_msg INFO (''Uploading '' @ ?src @ '' '' @ right_arrow
                                                @ '' '' @ as_posix remote_dir) w1
                         in (case sftp_put env ?src ?target True w2 of
                               (Inl e, w3) \<Rightarrow> (Inl e, w3)
                             | (Inr u, w3) \<Rightarrow>
                                 (Inr (), log_msg INFO ''Upload completed successfully.'' w3))"
  have up: "upload_file env local_path remote_dir h p u pw w =
        (case sftp_connection env h p u pw ?body ?w0 of
           (Inl e, w4) \<Rightarrow>
                   if is_upload_logged (cls e)
                   then (Inl e, log_msg ERROR (''An exception has occured! Error '' @ msg e) w4)
                   else (Inl e, w4)
               | (Inr u, w4) \<Rightarrow> (Inr (), w4))"
    using assms by (simp add: upload_file_def Let_def)
  have a: "session_ok env h p u pw \<Longrightarrow>
               requests (snd (upload_file env local_path remote_dir h p u pw w))
                 = requests w @ [Put ?src ?target True]
             \<and> store (snd (upload_file env local_path remote_dir h p u pw w))
                 = snd (sv_put env (store w) (localfs w) ?src ?target True)
             \<and> fst (upload_file env local_path remote_dir h p u pw w)
                 = (case fst (sv_put env (store w) (localfs w) ?src ?target True) of
                      Some e \<Rightarrow> Inl e | None \<Rightarrow> Inr ())"
    unfolding up
    by (auto simp: sftp_connection_ok Let_def sftp_put_def command_def log_msg_def
        split: sum.splits option.splits prod.splits)
  have b: "\<not> session_ok env h p u pw \<Longrightarrow>
               requests (snd (upload_file env local_path remote_dir h p u pw w)) = requests w
             \<and> store (snd (upload_file env local_path remote_dir h p u pw w)) = store w
             \<and> (\<exists>e. fst (upload_file env local_path remote_dir h p u pw w) = Inl e)"
    unfolding up
    using sftp_connection_failed [of env h p u pw ?body ?w0]
    by (auto simp: log_msg_def split: sum.splits prod.splits)
  have c: "path_name ?src \<noteq> [] \<and> path_name ?src \<noteq> ''.'' \<Longrightarrow>
               joinpath remote_dir (path_name ?src)
               = PurePosixPath (root remote_dir) (parts remote_dir @ [path_name ?src])"
    by (simp add: joinpath_plain path_name_no_slash)
  show ?thesis
    unfolding Let_def using a b c by blast
qed

theorem upload_file_target_witness:
  "lf_exists demo_env (localfs (demo_world [])) (lf_resolve demo_env (localfs (demo_world []))
      ''/tmp/report.csv'')
   \<and> lf_is_file demo_env (localfs (demo_world [])) (lf_resolve demo_env (localfs (demo_world []))
      ''/tmp/report.csv'')
   \<and> session_ok demo_env ''sftp.example.org'' 22 ''u'' ''secret''
   \<and> requests (snd (upload_file demo_env ''/tmp/report.csv'' (posix_path ''/home/c/'')
                       ''sftp.example.org'' 22 ''u'' ''secret'' (demo_world [])))
       = [Put ''/tmp/report.csv'' ''/home/c/report.csv'' True]
   \<and> fst (upload_file demo_env ''/tmp/report.csv'' (posix_path ''/home/c/'')
             ''sftp.example.org'' 22 ''u'' ''secret'' (demo_world [])) = Inr ()
   \<and> map fst (store (snd (upload_file demo_env ''/tmp/report.csv'' (posix_path ''/home/c/'')
                             ''sftp.example.org'' 22 ''u'' ''secret'' (demo_world []))))
       = [''/home'', ''/home/b.txt'', ''/home/c'', ''/home/a.txt'', ''/home/c/y.txt'',
          ''/home/c/x'', ''/home/c/x/k.txt'', ''/home/c/report.csv'']
   \<and> \<not> session_ok demo_env ''sftp.example.org'' 22 ''u'' ''wrong''
   \<and> requests (snd (upload_file demo_env ''/tmp/report.csv'' (posix_path ''/home/c/'')
                       ''sftp.example.org'' 22 ''u'' ''wrong'' (demo_world []))) = []
   \<and> store (snd (upload_file demo_env ''/tmp/report.csv'' (posix_path ''/home/c/'')
                    ''sftp.example.org'' 22 ''u'' ''wrong'' (demo_world []))) = demo_store
   \<and> joinpath (posix_path ''/home/c/'') (path_name ''/tmp/report.csv'')
       = PurePosixPath ''/'' [''home'', ''c'', ''report.csv'']"
proof -
  have e: "lf_exists demo_env (localfs (demo_world []))
             (lf_resolve demo_env (localfs (demo_world [])) ''/tmp/report.csv'')"
    and f: "lf_is_file demo_env (localfs (demo_world []))
             (lf_resolve demo_env (localfs (demo_world [])) ''/tmp/report.csv'')"
    by (simp_all add: demo_local demo_world_def)
  have w0: "requests (demo_world []) = []" "store (demo_world []) = demo_store"
    "localfs (demo_world []) = [''/tmp/report.csv'']"
    by (simp_all add: demo_world_def)
  have good: "requests (snd (upload_file demo_env ''/tmp/report.csv'' (posix_path ''/home/c/'')
                       ''sftp.example.org'' 22 ''u'' ''secret'' (demo_world [])))
       = [Put ''/tmp/report.csv'' ''/home/c/report.csv'' True]
   \<and> fst (upload_file demo_env ''/tmp/report.csv'' (posix_path ''/home/c/'')
             ''sftp.example.org'' 22 ''u'' ''secret'' (demo_world [])) = Inr ()
   \<and> map fst (store (snd (upload_file demo_env ''/tmp/report.csv'' (posix_path ''/home/c/'')
                             ''sftp.example.org'' 22 ''u'' ''secret'' (demo_world []))))
       = [''/home'', ''/home/b.txt'', ''/home/c'', ''/home/a.txt'', ''/home/c/y.txt'',
          ''/home/c/x'', ''/home/c/x/k.txt'', ''/home/c/report.csv'']
   \<and> joinpath (posix_path ''/home/c/'') (path_name ''/tmp/report.csv'')
       = PurePosixPath ''/'' [''home'', ''c'', ''report.csv'']"
    using upload_file_target [OF e f, of "posix_path ''/home/c/''" "''sftp.example.org''" 22
        "''u''" "''secret''"] demo_session_ok [of "''u''"]
    by (simp add: Let_def w0 demo_local ap_demo2 demo_put_report)
  have bad: "requests (snd (upload_file demo_env ''/tmp/report.csv'' (posix_path ''/home/c/'')
                       ''sftp.example.org'' 22 ''u'' ''wrong'' (demo_world []))) = []
   \<and> store (snd (upload_file demo_env ''/tmp/report.csv'' (posix_path ''/home/c/'')
                    ''sftp.example.org'' 22 ''u'' ''wrong'' (demo_world []))) = demo_store"
    using upload_file_target [OF e f, of "posix_path ''/home/c/''" "''sftp.example.org''" 22
        "''u''" "''wrong''"] demo_session_bad [of "''u''"]
    by (simp add: Let_def w0 demo_local ap_demo2)
  from e f good bad demo_session_ok [of "''u''"] demo_session_bad [of "''u''"]
  show ?thesis by blast
qed

section \<open>Listing\<close>

text \<open>
  C9. Invoking \<open>view_contents\<close> a second time, on the state the first invocation left,
  returns the same result (the same rows in the same order, or the same error):
  \<open>view_contents\<close> leaves the remote store as it was, and its result is the same from
  any two states of the run with the same remote store.
\<close>

theorem view_contents_idempotent:
  "fst (view_contents env remote_dir h p u pw (snd (view_contents env remote_dir h p u pw w)))
   = fst (view_contents env remote_dir h p u pw w)
   \<and> store (snd (view_contents env remote_dir h p u pw w)) = store w
   \<and> (\<forall>w2. store w2 = store w \<longrightarrow>
         fst (view_contents env remote_dir h p u pw w2)
         = fst (view_contents env remote_dir h p u pw w))"
proof -
  have dep: "fst (view_contents env remote_dir h p u pw w2)
             = fst (view_contents env remote_dir h p u pw w)" if "store w2 = store w" for w2
  proof (cases "session_ok env h p u pw")
    case True
    have l: "fst (sftp_listdir env q (w2\<lparr>transport_open := True, sftp_open := True\<rparr>))
             = fst (sftp_listdir env q (w\<lparr>transport_open := True, sftp_open := True\<rparr>))" for q
      using that by (simp add: sftp_listdir_def)
    have s: "store (snd (sftp_listdir env q (w2\<lparr>transport_open := True, sftp_open := True\<rparr>)))
             = store (snd (sftp_listdir env q (w\<lparr>transport_open := True, sftp_open := True\<rparr>)))"
      for q
      using that by (simp add: sftp_listdir_def)
    show ?thesis
      by (simp add: view_contents_def Let_def sftp_connection_ok [OF True] case_prod_beta l
          view_loop_fst_store [OF s] split: sum.splits)
  next
    case False
    then show ?thesis
      by (auto simp: view_contents_def Let_def sftp_connection_def session_ok_def
          split: option.splits)
  qed
  have again: "fst (view_contents env remote_dir h p u pw
                     (snd (view_contents env remote_dir h p u pw w)))
               = fst (view_contents env remote_dir h p u pw w)"
    by (rule dep) (rule view_contents_store)
  from again view_contents_store [of env remote_dir h p u pw w] dep
  show ?thesis by blast
qed

theorem view_contents_idempotent_witness:
  "store (demo_world [''later'']) = store (demo_world [])
   \<and> fst (view_contents demo_env (posix_path ''/home'') ''sftp.example.org'' 22 ''u'' ''secret''
             (demo_world [''later'']))
     = fst (view_contents demo_env (posix_path ''/home'') ''sftp.example.org'' 22 ''u'' ''secret''
             (demo_world []))
   \<and> fst (view_contents demo_env (posix_path ''/home'') ''sftp.example.org'' 22 ''u'' ''secret''
             (snd (view_contents demo_env (posix_path ''/home'') ''sftp.example.org'' 22 ''u''
                     ''secret'' (demo_world []))))
     = Inr [(''a.txt'', ''40''), (''b.txt'', ''20''), (''c'', ''30'')]"
proof -
  note t = view_contents_idempotent [of demo_env "posix_path ''/home''" "''sftp.example.org''" 22
      "''u''" "''secret''" "demo_world []"]
  have s: "store (demo_world [''later'']) = store (demo_world [])"
    by (simp add: demo_world_def)
  have a: "fst (view_contents demo_env (posix_path ''/home'') ''sftp.example.org'' 22 ''u''
                  ''secret'' (snd (view_contents demo_env (posix_path ''/home'')
                     ''sftp.example.org'' 22 ''u'' ''secret'' (demo_world []))))
           = fst (view_contents demo_env (posix_path ''/home'') ''sftp.example.org'' 22 ''u''
                  ''secret'' (demo_world []))"
    using t by blast
  have b: "fst (view_contents demo_env (posix_path ''/home'') ''sftp.example.org'' 22 ''u''
                  ''secret'' (demo_world [''later'']))
           = fst (view_contents demo_env (posix_path ''/home'') ''sftp.example.org'' 22 ''u''
                  ''secret'' (demo_world []))"
    using t s by blast
  from s a b show ?thesis
    by (simp only: demo_view_home)
qed

section \<open>Creating a directory\<close>

text \<open>
  C8. With the session established, whenever the remote end refuses the directory
  creation request, with whatever error, \<open>create_dir\<close> returns normally and has printed
  the error to the operator; in the shell the \<open>folder\<close> command then returns to the
  loop, which goes on to the restart prompt instead of exiting. The other three
  operations propagate the failure of their request: \<open>upload_file\<close> that of the
  transfer, \<open>delete\<close> that of the removal of a file and of a folder,
  \<open>view_contents\<close> that of the listing.
\<close>

theorem create_dir_swallows_request_failure:
  "(\<forall>e. session_ok env h p u pw \<and> fst (sv_mkdir env (store w) (as_posix rd)) = Some e \<longrightarrow>
        fst (create_dir env rd h p u pw w) = Inr ()
      \<and> stdout (snd (create_dir env rd h p u pw w))
          = stdout w @ [''Error creating folder: '' @ msg e])
   \<and> (\<forall>e c a rest.
        session_ok env (cr_host c) 22 (cr_username c) (cr_password c)
        \<and> stdin w = a # rest \<and> lower (strip a) \<noteq> ''exit''
        \<and> fst (sv_mkdir env (store w) (as_posix (posix_path (strip (strip a))))) = Some e \<longrightarrow>
        fst (dispatch env c ''folder'' w) = Inr ())
   \<and> (\<forall>e lp. session_ok env h p u pw
        \<and> lf_exists env (localfs w) (lf_resolve env (localfs w) lp)
        \<and> lf_is_file env (localfs w) (lf_resolve env (localfs w) lp)
        \<and> fst (sv_put env (store w) (localfs w) (lf_resolve env (localfs w) lp)
                  (as_posix (joinpath rd (path_name (lf_resolve env (localfs w) lp)))) True)
            = Some e \<longrightarrow>
        fst (upload_file env lp rd h p u pw w) = Inl e)
   \<and> (\<forall>e a. session_ok env h p u pw
        \<and> sv_stat env (store w) (as_posix rd) = Inr a \<and> \<not> S_ISDIR (st_mode a)
        \<and> fst (sv_remove env (store w) (as_posix rd)) = Some e \<longrightarrow>
        fst (delete env rd h p u pw ''file'' w) = Inl e)
   \<and> (\<forall>e. session_ok env h p u pw \<and> fst (sv_rmdir env (store w) (as_posix rd)) = Some e \<longrightarrow>
        fst (delete env rd h p u pw ''folder'' w) = Inl e)
   \<and> (\<forall>e. session_ok env h p u pw \<and> sv_listdir env (store w) (as_posix rd) = Inl e \<longrightarrow>
        fst (view_contents env rd h p u pw w) = Inl e)"
proof -
  have mk: "fst (create_dir env rd h p u pw w) = Inr ()
      \<and> stdout (snd (create_dir env rd h p u pw w))
          = stdout w @ [''Error creating folder: '' @ msg e]"
    if "session_ok env h p u pw" "fst (sv_mkdir env (store w) (as_posix rd)) = Some e"
    for e w rd h p u pw
    using that
    by (simp add: create_dir_def Let_def sftp_connection_ok sftp_mkdir_def command_def
        print_line_def)
  have sh: "fst (dispatch env c ''folder'' w) = Inr ()"
    if "session_ok env (cr_host c) 22 (cr_username c) (cr_password c)"
       "stdin w = a # rest" "lower (strip a) \<noteq> ''exit''"
       "fst (sv_mkdir env (store w) (as_posix (posix_path (strip (strip a))))) = Some e"
    for e c a rest
  proof -
    let ?w1 = "w\<lparr>stdin := rest, prompts := prompts w @ [''New remote directory: '']\<rparr>"
    have "fst (sv_mkdir env (store ?w1) (as_posix (posix_path (strip (strip a))))) = Some e"
      using that(4) by simp
    from mk [OF that(1) this]
    show ?thesis
      by (simp add: dispatch_def ask_answer [OF that(2,3)] exit_on_error_def case_prod_beta
          split: sum.splits)
  qed
  have up: "fst (upload_file env lp rd h p u pw w) = Inl e"
    if "session_ok env h p u pw"
       "lf_exists env (localfs w) (lf_resolve env (localfs w) lp)"
       "lf_is_file env (localfs w) (lf_resolve env (localfs w) lp)"
       "fst (sv_put env (store w) (localfs w) (lf_resolve env (localfs w) lp)
                  (as_posix (joinpath rd (path_name (lf_resolve env (localfs w) lp)))) True)
            = Some e"
    for e lp
    using that
    by (simp add: upload_file_def Let_def sftp_connection_ok sftp_put_def command_def
        log_msg_def)
  have rm: "fst (delete env rd h p u pw ''file'' w) = Inl e"
    if "session_ok env h p u pw" "sv_stat env (store w) (as_posix rd) = Inr a"
       "\<not> S_ISDIR (st_mode a)" "fst (sv_remove env (store w) (as_posix rd)) = Some e"
    for e a
    using that
    by (simp add: delete_def Let_def sftp_connection_ok sftp_stat_def sftp_remove_def
        command_def)
  have rd: "fst (delete env rd h p u pw ''folder'' w) = Inl e"
    if "session_ok env h p u pw" "fst (sv_rmdir env (store w) (as_posix rd)) = Some e"
    for e
    using that
    by (simp add: delete_def Let_def sftp_connection_ok sftp_rmdir_def command_def)
  have ls: "fst (view_contents env rd h p u pw w) = Inl e"
    if "session_ok env h p u pw" "sv_listdir env (store w) (as_posix rd) = Inl e"
    for e
    using that
    by (simp add: view_contents_def Let_def sftp_connection_ok sftp_listdir_def)
  from mk sh up rm rd ls show ?thesis by blast
qed

theorem create_dir_swallows_request_failure_witness:
  "fst (create_dir demo_env (posix_path ''/home'') ''sftp.example.org'' 22 ''u'' ''secret''
          (demo_world [''/home''])) = Inr ()
   \<and> stdout (snd (create_dir demo_env (posix_path ''/home'') ''sftp.example.org'' 22 ''u''
                     ''secret'' (demo_world [''/home''])))
       = [''Error creating folder: Failure'']
   \<and> fst (dispatch demo_env
            \<lparr>cr_host = ''sftp.example.org'', cr_username = ''u'', cr_password = ''secret''\<rparr>
            ''folder'' (demo_world [''/home''])) = Inr ()
   \<and> fst (upload_file readonly_env ''/tmp/report.csv'' (posix_path ''/home/c/'')
            ''sftp.example.org'' 22 ''u'' ''secret'' (demo_world []))
       = Inl (Exn PermissionError ''Permission denied'')
   \<and> fst (delete readonly_env (posix_path ''/home/a.txt'') ''sftp.example.org'' 22 ''u''
            ''secret'' ''file'' (demo_world []))
       = Inl (Exn PermissionError ''Permission denied'')
   \<and> fst (delete demo_env (posix_path ''/home/c'') ''sftp.example.org'' 22 ''u'' ''secret''
            ''folder'' (demo_world [])) = Inl (Exn OSError ''Failure'')
   \<and> fst (view_contents demo_env (posix_path ''/nope'') ''sftp.example.org'' 22 ''u''
            ''secret'' (demo_world [])) = Inl no_such_file"
proof -
  have w0: "store (demo_world ls) = demo_store" "stdout (demo_world ls) = []"
    "stdin (demo_world ls) = ls" "localfs (demo_world ls) = [''/tmp/report.csv'']" for ls
    by (simp_all add: demo_world_def)
  have a: "fst (create_dir demo_env (posix_path ''/home'') ''sftp.example.org'' 22 ''u''
                  ''secret'' (demo_world [''/home''])) = Inr ()
         \<and> stdout (snd (create_dir demo_env (posix_path ''/home'') ''sftp.example.org'' 22 ''u''
                     ''secret'' (demo_world [''/home''])))
             = [''Error creating folder: Failure'']
         \<and> fst (dispatch demo_env
                  \<lparr>cr_host = ''sftp.example.org'', cr_username = ''u'', cr_password = ''secret''\<rparr>
                  ''folder'' (demo_world [''/home''])) = Inr ()"
    using create_dir_swallows_request_failure [of demo_env "''sftp.example.org''" 22 "''u''"
        "''secret''" "demo_world [''/home'']" "posix_path ''/home''"]
      demo_session_ok [of "''u''"]
    by (simp add: w0 ap_demo3 demo_failures)
  have b: "fst (upload_file readonly_env ''/tmp/report.csv'' (posix_path ''/home/c/'')
            ''sftp.example.org'' 22 ''u'' ''secret'' (demo_world []))
       = Inl (Exn PermissionError ''Permission denied'')"
    using create_dir_swallows_request_failure [of readonly_env "''sftp.example.org''" 22 "''u''"
        "''secret''" "demo_world []" "posix_path ''/home/c/''"]
      readonly_session_ok [of "''u''"]
    by (simp add: w0 readonly_facts)
  have c: "fst (delete readonly_env (posix_path ''/home/a.txt'') ''sftp.example.org'' 22 ''u''
            ''secret'' ''file'' (demo_world []))
       = Inl (Exn PermissionError ''Permission denied'')"
    using create_dir_swallows_request_failure [of readonly_env "''sftp.example.org''" 22 "''u''"
        "''secret''" "demo_world []" "posix_path ''/home/a.txt''"]
      readonly_session_ok [of "''u''"]
    by (simp add: w0 readonly_facts ap_demo demo_stats demo_modes)
  have d: "fst (delete demo_env (posix_path ''/home/c'') ''sftp.example.org'' 22 ''u'' ''secret''
            ''folder'' (demo_world [])) = Inl (Exn OSError ''Failure'')"
    using create_dir_swallows_request_failure [of demo_env "''sftp.example.org''" 22 "''u''"
        "''secret''" "demo_world []" "posix_path ''/home/c''"]
      demo_session_ok [of "''u''"]
    by (simp add: w0 ap_demo demo_failures)
  have e: "fst (view_contents demo_env (posix_path ''/nope'') ''sftp.example.org'' 22 ''u''
            ''secret'' (demo_world [])) = Inl no_such_file"
    using create_dir_swallows_request_failure [of demo_env "''sftp.example.org''" 22 "''u''"
        "''secret''" "demo_world []" "posix_path ''/nope''"]
      demo_session_ok [of "''u''"]
    by (simp add: w0 ap_demo3 demo_failures)
  from a b c d e show ?thesis by blast
qed

section \<open>Releasing the session\<close>

text \<open>
  When the three connection steps succeed, the scope ends with the channel and the
  transport closed, whether its body returned or raised, and passes the body's result on.
\<close>

lemma sftp_connection_releases:
  assumes "session_ok env h p u pw"
  shows "\<not> transport_open (snd (sftp_connection env h p u pw body w))
       \<and> \<not> sftp_open (snd (sftp_connection env h p u pw body w))
       \<and> fst (sftp_connection env h p u pw body w)
           = fst (body (w\<lparr>transport_open := True, sftp_open := True\<rparr>))"
  by (simp add: sftp_connection_ok [OF assms])

text \<open>
  C3. The scope does not release what it opened on every exit path. The transport is
  created and connected before the \<open>try\<close> (lines 51-53), so when
  \<open>transport.connect\<close> raises, here for a rejected password, the \<open>finally\<close> that
  closes it (lines 56-58) is never entered: the scope exits by the authentication error
  and the transport it opened is still open, for every body and every state.
\<close>

theorem sftp_connection_leaks_transport:
  "fst (sftp_connection demo_env ''sftp.example.org'' 22 ''u'' ''wrong'' body (demo_world []))
     = Inl (Exn AuthenticationException ''Authentication failed.'')
   \<and> \<not> transport_open (demo_world [])
   \<and> transport_open (snd (sftp_connection demo_env ''sftp.example.org'' 22 ''u'' ''wrong'' body
                             (demo_world [])))"
  by (simp add: sftp_connection_def demo_env_def demo_world_def)

section \<open>Unrecognised input and the exit token\<close>

text \<open>
  An unrecognised command ends the process with status 1 after logging an error, and so
  does an unrecognised view mode; the loop does not go on after either.
\<close>

lemma dispatch_unrecognized_command:
  assumes "choice \<noteq> ''upload''" "choice \<noteq> ''folder''" "choice \<noteq> ''delete''" "choice \<noteq> ''view''"
  shows "dispatch env c choice w
         = (Inl (SystemExit 1), log_msg ERROR (invalid_choice (py_repr env choice)) w)"
  using assms by (simp add: dispatch_def)

lemma dispatch_unrecognized_view_mode:
  assumes "stdin w = a # b # rest" "lower (strip a) \<noteq> ''exit''" "lower (strip b) \<noteq> ''exit''"
    and "lower (strip (strip b)) \<noteq> ''list''" "lower (strip (strip b)) \<noteq> ''tree''"
    and "lower (strip (strip b)) \<noteq> ''csv''"
  shows "dispatch env c ''view'' w
         = (Inl (SystemExit 1),
            log_msg ERROR invalid_view_mode
              (w\<lparr>stdin := rest,
                  prompts := prompts w @ [''Remote directory to list: '', view_prompt]\<rparr>))"
proof -
  let ?w1 = "w\<lparr>stdin := b # rest, prompts := prompts w @ [''Remote directory to list: '']\<rparr>"
  have 1: "ask ''Remote directory to list: '' w = (Inr (strip a), ?w1)"
    using assms(1,2) by (simp add: ask_answer)
  have 2: "ask view_prompt ?w1
           = (Inr (strip b), ?w1\<lparr>stdin := rest, prompts := prompts ?w1 @ [view_prompt]\<rparr>)"
    using assms(3) by (simp add: ask_answer)
  show ?thesis
    using assms(4-6) by (simp add: dispatch_def 1 2 Let_def)
qed

lemma main_loop_exit:
  assumes "fst (loop_body env c w) = Inl h"
  shows "main_loop env c w = (Inl h, snd (loop_body env c w))"
  using assms by (subst main_loop.simps) (simp add: case_prod_beta split: sum.splits)

text \<open>
  C1. Not every unrecognised sub-mode input ends the run. The answer to
  \<open>File or Folder?\<close> is passed to \<open>delete\<close> as it was typed (lines 292-295) and
  \<open>delete\<close> has no branch for an answer other than \<open>file\<close> and \<open>folder\<close>
  (lines 134-149): in the run below the operator answers \<open>File\<close>, no request is sent,
  no error is logged, the shell goes on to the restart prompt and the process ends with
  status 0 only because the operator then declines to continue.
\<close>

theorem main_deletion_type_not_validated:
  "main demo_env [] (demo_world [''sftp.example.org'', ''u'', ''secret'', ''delete'', ''File'',
                                 ''/home/a.txt'', ''no''])
   = (Inr (),
      \<lparr>stdin = [],
       prompts = [''Host: '', ''Username: '', ''Password: '', menu_prompt, ''File or Folder? '',
                  ''Remote directory: '', ''Continue? (yes/no): ''],
       stdout = [[]], logged = [(INFO, ''Goodbye!'')], store = demo_store,
       localfs = [''/tmp/report.csv''], requests = [],
       transport_open = False, sftp_open = False\<rparr>)
   \<and> exit_status (fst (main demo_env [] (demo_world [''sftp.example.org'', ''u'', ''secret'',
                         ''delete'', ''File'', ''/home/a.txt'', ''no'']))) = 0"
  by (simp add: shell_defs demo_world_def delete_def sftp_connection_ok [OF demo_session_ok]
      exit_status_def)

text \<open>
  C2. The exit token does not end the process at every prompt. \<open>ask\<close> ends it with
  status 0 (the last fact below, at the prompt for the remote directory), but the prompt
  \<open>File or Folder?\<close> is read with the builtin \<open>input\<close> (line 292), not with
  \<open>ask\<close>: in the run below the operator types \<open>exit\<close> there, the shell takes it as
  the deletion type, asks for the remote directory, for the restart and for another
  command, and the process ends with status 1 on the unrecognised command that follows.
\<close>

theorem main_exit_ignored_at_deletion_prompt:
  "main demo_env [] (demo_world [''sftp.example.org'', ''u'', ''secret'', ''delete'', ''exit'',
                                 ''/home/a.txt'', ''yes'', ''yes'', ''bogus''])
   = (Inl (SystemExit 1),
      \<lparr>stdin = [],
       prompts = [''Host: '', ''Username: '', ''Password: '', menu_prompt, ''File or Folder? '',
                  ''Remote directory: '', ''Continue? (yes/no): '',
                  ''Proceed with the same sFTP credentials? (yes/no): '', menu_prompt],
       stdout = [[]],
       logged = [(ERROR, invalid_choice ([CHR 0x27] @ ''bogus'' @ [CHR 0x27]))],
       store = demo_store, localfs = [''/tmp/report.csv''], requests = [],
       transport_open = False, sftp_open = False\<rparr>)
   \<and> fst (ask ''Remote directory: '' (demo_world [''exit''])) = Inl (SystemExit 0)"
  by (simp add: shell_defs demo_world_def delete_def sftp_connection_ok [OF demo_session_ok]
      demo_repr)

section \<open>Order and shape of the listings\<close>

text \<open>
  C6. When \<open>view_contents\<close> returns rows, they are the names the remote end listed
  for the directory, sorted ascending, each with its modification time. When \<open>_walk\<close> completes on a directory,
  what it printed is, for the entries of that directory taken in the same ascending order
  of names (with their positions), the entry's own line followed by the lines of its
  subtree if it is a directory: the entries are visited and printed in that order. This
  holds at every directory the walk visits, each being the argument of one call.
\<close>

theorem listing_order:
  "(fst (view_contents env remote_dir h p u pw w) = Inr rows \<longrightarrow>
      rows = map (\<lambda>name. (name, mtime_at env (store w) (as_posix remote_dir @ ''/'' @ name)))
               (sort (listing env (store w) (as_posix remote_dir)))
    \<and> map fst rows = sort (listing env (store w) (as_posix remote_dir))
    \<and> sorted (map fst rows))
   \<and> (fst (walk env (Suc d) path prefix w2) = Inr () \<longrightarrow>
       (let names = sort (listing env (store w2) path)
        in sorted names
         \<and> map snd (enumerate 0 names) = names
         \<and> stdout (snd (walk env (Suc d) path prefix w2))
           = stdout w2
             @ concat (map (\<lambda>(idx, name).
                  let full = rstrip_slash path @ ''/'' @ name;
                      is_last = (idx = length names - 1);
                      is_dir = is_dir_at env (store w2) full
                  in entry_line prefix is_last name is_dir
                     # (if is_dir
                        then tree_lines env (store w2) d full (child_prefix prefix is_last)
                        else []))
                 (enumerate 0 names))))"
proof -
  have flat: "rows = map (\<lambda>name. (name, mtime_at env (store w) (as_posix remote_dir @ ''/'' @ name)))
                       (sort (listing env (store w) (as_posix remote_dir)))
            \<and> map fst rows = sort (listing env (store w) (as_posix remote_dir))
            \<and> sorted (map fst rows)"
    if v: "fst (view_contents env remote_dir h p u pw w) = Inr rows"
  proof -
    have a: "map fst rows = sort (listing env (store w) (as_posix remote_dir))"
      by (rule view_contents_names [OF v])
    have b: "sorted (map fst rows)"
      unfolding a by simp
    from view_contents_rows [OF v] a b show ?thesis by blast
  qed
  have tree: "let names = sort (listing env (store w2) path)
        in sorted names
         \<and> map snd (enumerate 0 names) = names
         \<and> stdout (snd (walk env (Suc d) path prefix w2))
           = stdout w2
             @ concat (map (\<lambda>(idx, name).
                  let full = rstrip_slash path @ ''/'' @ name;
                      is_last = (idx = length names - 1);
                      is_dir = is_dir_at env (store w2) full
                  in entry_line prefix is_last name is_dir
                     # (if is_dir
                        then tree_lines env (store w2) d full (child_prefix prefix is_last)
                        else []))
                 (enumerate 0 names))"
    if k: "fst (walk env (Suc d) path prefix w2) = Inr ()"
  proof -
    have c: "stdout (snd (walk env (Suc d) path prefix w2))
             = stdout w2 @ tree_lines env (store w2) (Suc d) path prefix"
      by (rule walk_refines [OF k])
    have d: "sorted (sort (listing env (store w2) path))"
      by simp
    have e: "map snd (enumerate 0 (sort (listing env (store w2) path)))
             = sort (listing env (store w2) path)"
      by simp
    from d e c [unfolded tree_lines.simps Let_def] show ?thesis
      unfolding Let_def by blast
  qed
  from flat tree show ?thesis by blast
qed

theorem listing_order_witness:
  "fst (view_contents demo_env (posix_path ''/home'') ''sftp.example.org'' 22 ''u'' ''secret''
          (demo_world [])) = Inr [(''a.txt'', ''40''), (''b.txt'', ''20''), (''c'', ''30'')]
   \<and> fst (walk demo_env (Suc (Suc (Suc 0))) ''/home'' [] (demo_world [])) = Inr ()
   \<and> sort (listing demo_env demo_store ''/home'') = [''a.txt'', ''b.txt'', ''c'']
   \<and> sorted [''a.txt'', ''b.txt'', ''c'']
   \<and> stdout (snd (walk demo_env (Suc (Suc (Suc 0))) ''/home'' [] (demo_world [])))
       = [mid_branch @ ''a.txt'', mid_branch @ ''b.txt'', last_branch @ ''c/'',
          last_extension @ mid_branch @ ''x/'',
          last_extension @ mid_extension @ last_branch @ ''k.txt'',
          last_extension @ last_branch @ ''y.txt'']"
proof -
  have w0: "store (demo_world []) = demo_store"
    by (simp add: demo_world_def)
  note run = demo_walk_home [OF w0, of "[]"]
  have wk: "fst (walk demo_env (Suc (Suc (Suc 0))) ''/home'' [] (demo_world [])) = Inr ()"
    by (simp only: run fst_conv)
  have out: "stdout (snd (walk demo_env (Suc (Suc (Suc 0))) ''/home'' [] (demo_world [])))
       = [mid_branch @ ''a.txt'', mid_branch @ ''b.txt'', last_branch @ ''c/'',
          last_extension @ mid_branch @ ''x/'',
          last_extension @ mid_extension @ last_branch @ ''k.txt'',
          last_extension @ last_branch @ ''y.txt'']"
    by (simp only: run snd_conv) (simp add: demo_world_def)
  have "map fst [(''a.txt'', ''40''), (''b.txt'', ''20''), (''c'', ''30'')]
          = sort (listing demo_env (store (demo_world [])) (as_posix (posix_path ''/home'')))
        \<and> sorted (map fst [(''a.txt'', ''40''), (''b.txt'', ''20''), (''c'', ''30'')])"
    using listing_order [of demo_env "posix_path ''/home''" "''sftp.example.org''" 22 "''u''"
        "''secret''" "demo_world []" "[(''a.txt'', ''40''), (''b.txt'', ''20''), (''c'', ''30'')]"]
      demo_view_home
    by blast
  then have "sort (listing demo_env demo_store ''/home'') = [''a.txt'', ''b.txt'', ''c'']
        \<and> sorted [''a.txt'', ''b.txt'', ''c'']"
    by (simp add: w0 ap_home)
  with demo_view_home wk out show ?thesis by blast
qed

text \<open>
  C7. What a completed \<open>_walk\<close> prints is the tree as the specification words it
  (\<open>tree_lines\<close>, section 4.6): in each directory the last entry of the sorted listing
  is printed with the corner connector and every other entry with the tee, a directory's
  name is followed by a slash, and the lines of a directory's children start with the
  current prefix extended by four spaces when the directory was the last entry and by
  the vertical bar and three spaces otherwise (every line of a subtree starts with the
  prefix of that subtree). The connectors are spelled out as their UTF-8 bytes. The same
  holds for \<open>stfp_formatter\<close> as a whole, which prints the root first; when the walk
  completes within some depth it completes with the same output within any greater one
  (\<open>walk_mono\<close>).
\<close>

theorem tree_rendering:
  "(fst (walk env d path prefix w) = Inr () \<longrightarrow>
      stdout (snd (walk env d path prefix w))
      = stdout w @ tree_lines env (store w) d path prefix)
   \<and> (fst (stfp_formatter env h p u pw remote_dir w0) = Inr () \<longrightarrow>
      stdout (snd (stfp_formatter env h p u pw remote_dir w0))
      = stdout w0 @ (rstrip_slash (as_posix remote_dir) @ ''/'')
        # tree_lines env (store w0) (recursion_limit env) (rstrip_slash (as_posix remote_dir)) [])
   \<and> (\<forall>l \<in> set (tree_lines env s d path prefix). take (length prefix) l = prefix)
   \<and> entry_line prefix is_last name is_dir
     = prefix @ (if is_last
                 then [CHR 0xE2, CHR 0x94, CHR 0x94, CHR 0xE2, CHR 0x94, CHR 0x80,
                       CHR 0xE2, CHR 0x94, CHR 0x80, CHR 0x20]
                 else [CHR 0xE2, CHR 0x94, CHR 0x9C, CHR 0xE2, CHR 0x94, CHR 0x80,
                       CHR 0xE2, CHR 0x94, CHR 0x80, CHR 0x20])
       @ name @ (if is_dir then ''/'' else [])
   \<and> child_prefix prefix is_last
     = prefix @ (if is_last then ''    '' else [CHR 0xE2, CHR 0x94, CHR 0x82] @ ''   '')"
proof -
  have a: "stdout (snd (walk env d path prefix w))
           = stdout w @ tree_lines env (store w) d path prefix"
    if "fst (walk env d path prefix w) = Inr ()"
    by (rule walk_refines [OF that])
  have b: "\<forall>l \<in> set (tree_lines env s d path prefix). take (length prefix) l = prefix"
    by (simp add: tree_lines_prefix)
  have c: "entry_line prefix is_last name is_dir
     = prefix @ (if is_last
                 then [CHR 0xE2, CHR 0x94, CHR 0x94, CHR 0xE2, CHR 0x94, CHR 0x80,
                       CHR 0xE2, CHR 0x94, CHR 0x80, CHR 0x20]
                 else [CHR 0xE2, CHR 0x94, CHR 0x9C, CHR 0xE2, CHR 0x94, CHR 0x80,
                       CHR 0xE2, CHR 0x94, CHR 0x80, CHR 0x20])
       @ name @ (if is_dir then ''/'' else [])"
    by (simp add: entry_line_def last_branch_def mid_branch_def box_corner_def box_tee_def
        box_dash_def)
  have d: "child_prefix prefix is_last
     = prefix @ (if is_last then ''    '' else [CHR 0xE2, CHR 0x94, CHR 0x82] @ ''   '')"
    by (simp add: child_prefix_def last_extension_def mid_extension_def box_bar_def)
  from a b c d stfp_formatter_refines [of env h p u pw remote_dir w0]
  show ?thesis by blast
qed

theorem tree_rendering_witness:
  "fst (walk demo_env (Suc (Suc (Suc 0))) ''/home'' [] (demo_world [])) = Inr ()
   \<and> stdout (snd (walk demo_env (Suc (Suc (Suc 0))) ''/home'' [] (demo_world [])))
     = tree_lines demo_env demo_store (Suc (Suc (Suc 0))) ''/home'' []
   \<and> tree_lines demo_env demo_store (Suc (Suc (Suc 0))) ''/home'' []
     = [mid_branch @ ''a.txt'', mid_branch @ ''b.txt'', last_branch @ ''c/'',
        last_extension @ mid_branch @ ''x/'',
        last_extension @ mid_extension @ last_branch @ ''k.txt'',
        last_extension @ last_branch @ ''y.txt'']
   \<and> fst (stfp_formatter demo_env ''sftp.example.org'' 22 ''u'' ''secret''
            (posix_path ''/home/'') (demo_world [])) = Inr ()
   \<and> stdout (snd (stfp_formatter demo_env ''sftp.example.org'' 22 ''u'' ''secret''
                     (posix_path ''/home/'') (demo_world [])))
     = ''/home/'' # tree_lines demo_env demo_store (recursion_limit demo_env) ''/home'' []
   \<and> tree_lines demo_env demo_store (recursion_limit demo_env) ''/home'' []
     = [mid_branch @ ''a.txt'', mid_branch @ ''b.txt'', last_branch @ ''c/'',
        last_extension @ mid_branch @ ''x/'',
        last_extension @ mid_extension @ last_branch @ ''k.txt'',
        last_extension @ last_branch @ ''y.txt'']"
proof -
  have w0: "store (demo_world []) = demo_store" "stdout (demo_world []) = []"
    by (simp_all add: demo_world_def)
  have wk: "fst (walk demo_env (Suc (Suc (Suc 0))) ''/home'' [] (demo_world [])) = Inr ()"
    by (simp only: demo_walk_home [OF w0(1), of "[]"] fst_conv)
  have fm: "fst (stfp_formatter demo_env ''sftp.example.org'' 22 ''u'' ''secret''
            (posix_path ''/home/'') (demo_world [])) = Inr ()"
    by (simp only: demo_formatter_home fst_conv)
  note t = tree_rendering [of demo_env "Suc (Suc (Suc 0))" "''/home''" "[]" "demo_world []"
      "''sftp.example.org''" 22 "''u''" "''secret''" "posix_path ''/home/''" "demo_world []"]
  have a: "stdout (snd (walk demo_env (Suc (Suc (Suc 0))) ''/home'' [] (demo_world [])))
           = tree_lines demo_env demo_store (Suc (Suc (Suc 0))) ''/home'' []"
    using t wk by (simp add: w0)
  have b: "stdout (snd (stfp_formatter demo_env ''sftp.example.org'' 22 ''u'' ''secret''
                     (posix_path ''/home/'') (demo_world [])))
     = ''/home/'' # tree_lines demo_env demo_store (recursion_limit demo_env) ''/home'' []"
    using t fm by (simp add: w0 ap_home_slash)
  have c: "tree_lines demo_env demo_store (recursion_limit demo_env) ''/home'' []
     = [mid_branch @ ''a.txt'', mid_branch @ ''b.txt'', last_branch @ ''c/'',
        last_extension @ mid_branch @ ''x/'',
        last_extension @ mid_extension @ last_branch @ ''k.txt'',
        last_extension @ last_branch @ ''y.txt'']"
    using b by (simp add: demo_formatter_home)
  from wk a demo_tree_home fm b c show ?thesis by blast
qed

end
